theory Spec2Isabelle
  imports Main
begin

section \<open>The palette shadow lookup texture of create\_palette\_texture.py\<close>

text \<open>
  The script holds two literal tables, a 32-colour palette and a dictionary of shadow
  rows, creates a 32x8 RGB image, fills it with a nested loop and saves it. Python
  integers are \<^typ>\<open>int\<close>, the loop counters of \<open>range\<close> are \<^typ>\<open>nat\<close>, an
  exception is the left summand of a result.
\<close>

subsection \<open>Python values and the exceptions of indexing\<close>

datatype py_error = KeyError | IndexError | OSError

type_synonym rgb = "int \<times> int \<times> int"

text \<open>
  \<open>xs[i]\<close> on a Python list: an index from \<open>-len(xs)\<close> up to \<open>-1\<close> counts from
  the end, an index outside \<open>[-len(xs), len(xs))\<close> raises IndexError.
\<close>

fun list_getitem :: "'a list \<Rightarrow> int \<Rightarrow> py_error + 'a" where
  "list_getitem xs i =
     (if 0 \<le> i \<and> i < int (length xs) then Inr (xs ! nat i)
      else if - int (length xs) \<le> i \<and> i < 0 then Inr (xs ! nat (int (length xs) + i))
      else Inl IndexError)"

text \<open>\<open>d[k]\<close> on a Python dictionary: a missing key raises KeyError.\<close>

fun dict_getitem :: "('k \<rightharpoonup> 'v) \<Rightarrow> 'k \<Rightarrow> py_error + 'v" where
  "dict_getitem d k = (case d k of None \<Rightarrow> Inl KeyError | Some v \<Rightarrow> Inr v)"

subsection \<open>The compiled-in tables\<close>

definition palette_colors :: "rgb list" where
  "palette_colors =
    [(0x00, 0x00, 0x00), (0x1d, 0x2b, 0x53), (0x7e, 0x25, 0x53), (0x00, 0x87, 0x51),
     (0xab, 0x52, 0x36), (0x5f, 0x57, 0x4f), (0xc2, 0xc3, 0xc7), (0xff, 0xf1, 0xe8),
     (0xff, 0x00, 0x4d), (0xff, 0xa3, 0x00), (0xff, 0xec, 0x27), (0x00, 0xe4, 0x36),
     (0x29, 0xad, 0xff), (0x83, 0x76, 0x9c), (0xff, 0x77, 0xa8), (0xff, 0xcc, 0xaa),
     (0x1c, 0x5e, 0xac), (0x00, 0xa5, 0xa1), (0x75, 0x4e, 0x97), (0x12, 0x53, 0x59),
     (0x74, 0x2f, 0x29), (0x49, 0x2d, 0x38), (0xa2, 0x88, 0x79), (0xff, 0xac, 0xc5),
     (0xc3, 0x00, 0x4c), (0xeb, 0x6b, 0x00), (0x90, 0xec, 0x42), (0x00, 0xb2, 0x51),
     (0x64, 0xdf, 0xf6), (0xbd, 0x9a, 0xdf), (0xe4, 0x0d, 0xab), (0xff, 0x85, 0x6d)]"

definition shadow_rows :: "(nat \<times> int list) list" where
  "shadow_rows =
    [(0, [0, 0, 0, 0, 0, 0, 0, 0]),
     (1, [1, 1, 1, 0, 0, 0, 0, 0]),
     (2, [2, 2, 21, 21, 1, 0, 0, 0]),
     (3, [3, 3, 19, 19, 1, 1, 0, 0]),
     (4, [4, 4, 20, 20, 21, 1, 0, 0]),
     (5, [5, 5, 21, 21, 1, 0, 0, 0]),
     (6, [6, 13, 13, 5, 5, 21, 1, 0]),
     (7, [7, 6, 6, 13, 5, 5, 1, 0]),
     (8, [8, 8, 24, 24, 2, 21, 1, 0]),
     (9, [9, 9, 25, 25, 4, 20, 21, 0]),
     (10, [10, 10, 9, 25, 4, 20, 1, 0]),
     (11, [11, 11, 27, 27, 3, 19, 1, 0]),
     (12, [12, 12, 16, 16, 1, 1, 0, 0]),
     (13, [13, 13, 5, 5, 21, 1, 0, 0]),
     (14, [14, 14, 8, 8, 24, 2, 1, 0]),
     (15, [15, 15, 4, 4, 20, 21, 1, 0]),
     (16, [16, 16, 1, 1, 0, 0, 0, 0]),
     (17, [17, 17, 19, 19, 1, 1, 0, 0]),
     (18, [18, 18, 2, 2, 21, 1, 0, 0]),
     (19, [19, 19, 1, 1, 0, 0, 0, 0]),
     (20, [20, 20, 21, 21, 1, 0, 0, 0]),
     (21, [21, 21, 1, 0, 0, 0, 0, 0]),
     (22, [22, 22, 5, 5, 21, 1, 0, 0]),
     (23, [23, 23, 14, 14, 8, 24, 2, 0]),
     (24, [24, 24, 2, 2, 21, 1, 0, 0]),
     (25, [25, 25, 4, 4, 20, 21, 1, 0]),
     (26, [26, 26, 11, 11, 27, 3, 19, 0]),
     (27, [27, 27, 3, 3, 19, 1, 0, 0]),
     (28, [28, 28, 12, 12, 16, 1, 0, 0]),
     (29, [29, 29, 13, 13, 5, 21, 1, 0]),
     (30, [30, 30, 24, 24, 2, 21, 1, 0]),
     (31, [31, 31, 8, 8, 24, 2, 1, 0])]"

text \<open>The dictionary literal \<open>shadow_levels\<close>: its keys are distinct, so it is the map of its items.\<close>

definition shadow_levels :: "nat \<rightharpoonup> int list" where
  "shadow_levels = map_of shadow_rows"

subsection \<open>The image buffer\<close>

text \<open>
  The image library is not part of the repository. What the script uses of it is modelled
  as follows: an image has a mode, a size and its pixels in raster order (row \<open>y\<close>, column
  \<open>x\<close> at position \<open>y * width + x\<close>); a new image is black; \<open>putpixel\<close> on an RGB
  image stores each channel in 8 bits, clamped to 0..255, and raises IndexError outside
  the image. The library converts a channel to a C integer before it clamps it and raises
  OverflowError for a channel that does not fit; that case is not modelled, and no palette
  with channels in 0..255 reaches it.
\<close>

record image =
  im_mode :: string
  im_width :: nat
  im_height :: nat
  im_data :: "rgb list"

definition Image_new :: "string \<Rightarrow> nat \<times> nat \<Rightarrow> image" where
  "Image_new mode sz =
     \<lparr>im_mode = mode, im_width = fst sz, im_height = snd sz,
      im_data = replicate (fst sz * snd sz) (0, 0, 0)\<rparr>"

definition clip8 :: "int \<Rightarrow> int" where
  "clip8 v = (if v \<le> 0 then 0 else if v < 256 then v else 255)"

fun clip_rgb :: "rgb \<Rightarrow> rgb" where
  "clip_rgb (r, g, b) = (clip8 r, clip8 g, clip8 b)"

fun putpixel :: "image \<Rightarrow> nat \<times> nat \<Rightarrow> rgb \<Rightarrow> py_error + image" where
  "putpixel img (x, y) v =
     (if x < im_width img \<and> y < im_height img
      then Inr (img\<lparr>im_data := (im_data img)[y * im_width img + x := clip_rgb v]\<rparr>)
      else Inl IndexError)"

fun getpixel :: "image \<Rightarrow> nat \<times> nat \<Rightarrow> py_error + rgb" where
  "getpixel img (x, y) =
     (if x < im_width img \<and> y < im_height img
      then Inr (im_data img ! (y * im_width img + x))
      else Inl IndexError)"

subsection \<open>The fill loop\<close>

text \<open>
  The body of the inner loop, for column \<open>palette_idx\<close> and row \<open>shadow_level\<close>: two
  lookups and one \<open>putpixel\<close>, each of which may raise.
\<close>

fun fill_pixel :: "rgb list \<Rightarrow> (nat \<rightharpoonup> int list) \<Rightarrow> nat \<Rightarrow> nat \<Rightarrow> image \<Rightarrow> py_error + image" where
  "fill_pixel pal tbl palette_idx shadow_level img =
     (case dict_getitem tbl palette_idx of
        Inl e \<Rightarrow> Inl e
      | Inr row \<Rightarrow>
          (case list_getitem row (int shadow_level) of
             Inl e \<Rightarrow> Inl e
           | Inr shadow_idx \<Rightarrow>
               (case list_getitem pal shadow_idx of
                  Inl e \<Rightarrow> Inl e
                | Inr v \<Rightarrow> putpixel img (palette_idx, shadow_level) v)))"

text \<open>\<open>for shadow_level in range(8)\<close>, stopped by the first exception.\<close>

fun fill_column :: "rgb list \<Rightarrow> (nat \<rightharpoonup> int list) \<Rightarrow> nat \<Rightarrow> nat list \<Rightarrow> image \<Rightarrow> py_error + image" where
  "fill_column pal tbl palette_idx [] img = Inr img"
| "fill_column pal tbl palette_idx (shadow_level # rest) img =
     (case fill_pixel pal tbl palette_idx shadow_level img of
        Inl e \<Rightarrow> Inl e
      | Inr img' \<Rightarrow> fill_column pal tbl palette_idx rest img')"

text \<open>\<open>for palette_idx in range(32)\<close>, stopped by the first exception.\<close>

fun fill_columns :: "rgb list \<Rightarrow> (nat \<rightharpoonup> int list) \<Rightarrow> nat list \<Rightarrow> image \<Rightarrow> py_error + image" where
  "fill_columns pal tbl [] img = Inr img"
| "fill_columns pal tbl (palette_idx # rest) img =
     (case fill_column pal tbl palette_idx [0..<8] img of
        Inl e \<Rightarrow> Inl e
      | Inr img' \<Rightarrow> fill_columns pal tbl rest img')"

definition width :: nat where "width = 32"
definition height :: nat where "height = 8"

text \<open>Lines 84 to 96 of the script: the new image and the fill loop over it.\<close>

definition build :: "rgb list \<Rightarrow> (nat \<rightharpoonup> int list) \<Rightarrow> py_error + image" where
  "build pal tbl = fill_columns pal tbl [0..<32] (Image_new ''RGB'' (width, height))"

subsection \<open>Saving and the whole script\<close>

text \<open>
  The world of the script: the files it can reach (a file holds the image that was
  encoded into it, the codec being outside the repository), which paths can be opened
  for writing, and the lines printed. \<open>img.save\<close> fails when the target cannot be
  opened (missing directory, no permission), before anything is written.
\<close>

record world =
  files :: "string \<rightharpoonup> image"
  writable :: "string \<Rightarrow> bool"
  stdout :: "string list"

definition save :: "image \<Rightarrow> string \<Rightarrow> world \<Rightarrow> py_error + world" where
  "save img path w =
     (if writable w path then Inr (w\<lparr>files := (files w)(path \<mapsto> img)\<rparr>) else Inl OSError)"

definition print :: "string \<Rightarrow> world \<Rightarrow> world" where
  "print line w = w\<lparr>stdout := stdout w @ [line]\<rparr>"

fun digit_char :: "nat \<Rightarrow> char" where
  "digit_char n = char_of (48 + n)"

fun str_nat :: "nat \<Rightarrow> string" where
  "str_nat n = (if n < 10 then [digit_char n] else str_nat (n div 10) @ [digit_char (n mod 10)])"

declare str_nat.simps [simp del]

definition output_path :: string where
  "output_path = ''assets/palette_shadow_lookup.png''"

text \<open>
  The script, with the two tables as parameters. An exception ends it where it is
  raised: the world is the one reached so far.
\<close>

definition script :: "rgb list \<Rightarrow> (nat \<rightharpoonup> int list) \<Rightarrow> world \<Rightarrow> (py_error + unit) \<times> world" where
  "script pal tbl w =
     (case build pal tbl of
        Inl e \<Rightarrow> (Inl e, w)
      | Inr img \<Rightarrow>
          (case save img output_path w of
             Inl e \<Rightarrow> (Inl e, w)
           | Inr w1 \<Rightarrow>
               (Inr (),
                print ''Each row represents a shadow level (0=brightest, 7=darkest)''
                 (print ''Each column represents a palette color (0-31)''
                   (print (''Size: '' @ str_nat width @ ''x'' @ str_nat height @ '' pixels'')
                     (print (''Created palette shadow lookup texture: '' @ output_path) w1))))))"

definition main :: "world \<Rightarrow> (py_error + unit) \<times> world" where
  "main = script palette_colors shadow_levels"

subsection \<open>Notions the properties are stated with\<close>

text \<open>
  The two lookups of the loop body without the write: the colour the loop computes for a
  cell, or the exception it raises there.
\<close>

fun lookup_rgb :: "rgb list \<Rightarrow> (nat \<rightharpoonup> int list) \<Rightarrow> nat \<times> nat \<Rightarrow> py_error + rgb" where
  "lookup_rgb pal tbl (p, s) =
     (case dict_getitem tbl p of
        Inl e \<Rightarrow> Inl e
      | Inr row \<Rightarrow>
          (case list_getitem row (int s) of
             Inl e \<Rightarrow> Inl e
           | Inr shadow_idx \<Rightarrow> list_getitem pal shadow_idx))"

text \<open>
  The loop body run over the cells in a given order, stopped by the first exception.
  \<open>raster\<close> is the order of the nested loop of the script: column by column.
\<close>

fun fill_in_order :: "rgb list \<Rightarrow> (nat \<rightharpoonup> int list) \<Rightarrow> (nat \<times> nat) list \<Rightarrow> image \<Rightarrow> py_error + image" where
  "fill_in_order pal tbl [] img = Inr img"
| "fill_in_order pal tbl (c # cs) img =
     (case fill_pixel pal tbl (fst c) (snd c) img of
        Inl e \<Rightarrow> Inl e
      | Inr img' \<Rightarrow> fill_in_order pal tbl cs img')"

definition raster :: "(nat \<times> nat) list" where
  "raster = concat (map (\<lambda>p. map (Pair p) [0..<8]) [0..<32])"

text \<open>
  The invariants of the data model: a palette of 32 colours with channels in 0..255, a
  shadow table with 32 rows of 8 palette indices each.
\<close>

definition palette_ok :: "rgb list \<Rightarrow> bool" where
  "palette_ok pal =
     (length pal = 32 \<and>
      (\<forall>c \<in> set pal. case c of (r, g, b) \<Rightarrow>
          0 \<le> r \<and> r < 256 \<and> 0 \<le> g \<and> g < 256 \<and> 0 \<le> b \<and> b < 256))"

definition shadow_table_ok :: "(nat \<rightharpoonup> int list) \<Rightarrow> bool" where
  "shadow_table_ok tbl =
     (\<forall>p \<in> {0..<32}. case tbl p of
          None \<Rightarrow> False
        | Some row \<Rightarrow> length row = 8 \<and> (\<forall>v \<in> set row. 0 \<le> v \<and> v < 32))"

text \<open>A world with no files, where every path can be written.\<close>

definition empty_world :: world where
  "empty_world = \<lparr>files = Map.empty, writable = (\<lambda>path. True), stdout = []\<rparr>"

section \<open>Properties of the fill loop\<close>

lemma fill_pixel_lookup:
  "fill_pixel pal tbl p s img =
     (case lookup_rgb pal tbl (p, s) of Inl e \<Rightarrow> Inl e | Inr v \<Rightarrow> putpixel img (p, s) v)"
  by (simp del: putpixel.simps list_getitem.simps dict_getitem.simps split: sum.splits)

lemma fill_in_order_append:
  "fill_in_order pal tbl (cs @ ds) img =
     (case fill_in_order pal tbl cs img of Inl e \<Rightarrow> Inl e | Inr img' \<Rightarrow> fill_in_order pal tbl ds img')"
  by (induction cs arbitrary: img) (auto split: sum.splits simp del: fill_pixel.simps)

lemma fill_column_in_order:
  "fill_column pal tbl p ss img = fill_in_order pal tbl (map (Pair p) ss) img"
  by (induction ss arbitrary: img) (auto split: sum.splits simp del: fill_pixel.simps)

lemma fill_columns_in_order:
  "fill_columns pal tbl ps img =
     fill_in_order pal tbl (concat (map (\<lambda>p. map (Pair p) [0..<8]) ps)) img"
proof (induction ps arbitrary: img)
  case Nil
  show ?case by simp
next
  case (Cons p ps)
  have rhs: "fill_in_order pal tbl (concat (map (\<lambda>p. map (Pair p) [0..<8]) (p # ps))) img =
      (case fill_column pal tbl p [0..<8] img of
         Inl e \<Rightarrow> Inl e
       | Inr img' \<Rightarrow> fill_in_order pal tbl (concat (map (\<lambda>p. map (Pair p) [0..<8]) ps)) img')"
    by (simp only: list.map concat.simps fill_in_order_append fill_column_in_order)
  show ?case
  proof (cases "fill_column pal tbl p [0..<8] img")
    case (Inl e)
    then show ?thesis by (simp only: rhs fill_columns.simps sum.case)
  next
    case (Inr img1)
    then show ?thesis by (simp only: rhs fill_columns.simps sum.case Cons.IH)
  qed
qed

lemma build_in_order:
  "build pal tbl = fill_in_order pal tbl raster (Image_new ''RGB'' (width, height))"
  by (simp only: build_def raster_def fill_columns_in_order)

lemma set_raster: "set raster = {0..<32} \<times> {0..<8}"
  unfolding raster_def by (simp only: set_concat set_map set_upt) auto

lemma raster_index_inj:
  fixes x y p s w :: nat
  assumes "x < w" "p < w" "y * w + x = s * w + p"
  shows "x = p \<and> y = s"
proof -
  have "(y * w + x) mod w = (s * w + p) mod w" using assms(3) by simp
  hence xp: "x = p" using assms(1,2) by simp
  hence "y * w = s * w" using assms(3) by simp
  thus ?thesis using xp assms(1) by simp
qed

lemma putpixel_Inr:
  assumes "putpixel img c v = Inr img'"
  shows "im_mode img' = im_mode img \<and> im_width img' = im_width img \<and> im_height img' = im_height img
       \<and> length (im_data img') = length (im_data img)
       \<and> fst c < im_width img \<and> snd c < im_height img
       \<and> im_data img' = (im_data img)[snd c * im_width img + fst c := clip_rgb v]"
  using assms by (cases c) (auto split: if_splits)

lemma fill_in_order_ConsE:
  assumes "fill_in_order pal tbl (c # cs) img = Inr img'"
  obtains v img1 where "lookup_rgb pal tbl c = Inr v" "putpixel img c v = Inr img1"
    "fill_in_order pal tbl cs img1 = Inr img'"
proof -
  obtain p s where c: "c = (p, s)" by (cases c)
  have step: "fill_in_order pal tbl (c # cs) img =
     (case (case lookup_rgb pal tbl c of Inl e \<Rightarrow> Inl e | Inr v \<Rightarrow> putpixel img c v) of
        Inl e \<Rightarrow> Inl e | Inr img1 \<Rightarrow> fill_in_order pal tbl cs img1)"
    unfolding c by (simp only: fill_in_order.simps fst_conv snd_conv fill_pixel_lookup)
  show thesis
  proof (cases "lookup_rgb pal tbl c")
    case (Inl e)
    with assms step show ?thesis by (simp only: sum.case) simp
  next
    case v: (Inr v)
    show ?thesis
    proof (cases "putpixel img c v")
      case (Inl e)
      with assms step v show ?thesis by (simp only: sum.case) simp
    next
      case (Inr img1)
      with assms step v have "fill_in_order pal tbl cs img1 = Inr img'" by (simp only: sum.case)
      with v Inr show ?thesis by (rule that)
    qed
  qed
qed

lemma fill_in_order_Inr:
  assumes "fill_in_order pal tbl cs img = Inr img'"
  shows "im_mode img' = im_mode img \<and> im_width img' = im_width img \<and> im_height img' = im_height img
       \<and> length (im_data img') = length (im_data img)
       \<and> (\<forall>c \<in> set cs. fst c < im_width img \<and> snd c < im_height img
                        \<and> (\<exists>v. lookup_rgb pal tbl c = Inr v))"
  using assms
proof (induction cs arbitrary: img)
  case Nil
  then show ?case by simp
next
  case (Cons c cs)
  from Cons.prems obtain v img1 where
    v: "lookup_rgb pal tbl c = Inr v" and p1: "putpixel img c v = Inr img1"
    and rest: "fill_in_order pal tbl cs img1 = Inr img'"
    by (rule fill_in_order_ConsE)
  note P = putpixel_Inr[OF p1] and R = Cons.IH[OF rest]
  have "\<forall>d \<in> set (c # cs). fst d < im_width img \<and> snd d < im_height img
                        \<and> (\<exists>u. lookup_rgb pal tbl d = Inr u)"
  proof
    fix d assume "d \<in> set (c # cs)"
    then consider "d = c" | "d \<in> set cs" by auto
    then show "fst d < im_width img \<and> snd d < im_height img \<and> (\<exists>u. lookup_rgb pal tbl d = Inr u)"
    proof cases
      case 1
      then show ?thesis using P v by blast
    next
      case 2
      then show ?thesis using R P by simp
    qed
  qed
  then show ?case using P R by simp
qed

lemma raster_index_less:
  fixes x y w h :: nat
  assumes "x < w" "y < h"
  shows "y * w + x < w * h"
proof -
  have "y * w + x < Suc y * w" using assms(1) by simp
  also have "\<dots> \<le> h * w" using assms(2) by (intro mult_le_mono1) simp
  finally show ?thesis by (simp add: mult.commute)
qed

lemma fill_in_order_pixel:
  assumes "fill_in_order pal tbl cs img = Inr img'"
    and "x < im_width img" "y < im_height img"
    and "length (im_data img) = im_width img * im_height img"
  shows "im_data img' ! (y * im_width img + x) =
           (if (x, y) \<in> set cs then clip_rgb (projr (lookup_rgb pal tbl (x, y)))
            else im_data img ! (y * im_width img + x))"
  using assms
proof (induction cs arbitrary: img)
  case Nil
  then show ?case by simp
next
  case (Cons c cs)
  obtain p s where c: "c = (p, s)" by (cases c)
  from Cons.prems(1) obtain v img1 where
    v: "lookup_rgb pal tbl c = Inr v" and p1: "putpixel img c v = Inr img1"
    and rest: "fill_in_order pal tbl cs img1 = Inr img'"
    by (rule fill_in_order_ConsE)
  note P = putpixel_Inr[OF p1]
  have bnd: "p < im_width img" "s < im_height img" using P c by simp_all
  have idx: "y * im_width img + x < length (im_data img)"
    using raster_index_less[OF Cons.prems(2,3)] Cons.prems(4) by simp
  have IH: "im_data img' ! (y * im_width img + x) =
           (if (x, y) \<in> set cs then clip_rgb (projr (lookup_rgb pal tbl (x, y)))
            else im_data img1 ! (y * im_width img + x))"
    using Cons.IH[OF rest] P Cons.prems(2,3,4) by simp
  have one: "im_data img1 ! (y * im_width img + x) =
           (if (x, y) = c then clip_rgb v else im_data img ! (y * im_width img + x))"
  proof (cases "(x, y) = c")
    case True
    then show ?thesis using P idx c by simp
  next
    case False
    have "y * im_width img + x \<noteq> s * im_width img + p"
    proof
      assume "y * im_width img + x = s * im_width img + p"
      from raster_index_inj[OF Cons.prems(2) bnd(1) this] False c show False by simp
    qed
    then show ?thesis using P c False by auto
  qed
  show ?case
  proof (cases "(x, y) \<in> set cs")
    case True
    then show ?thesis using IH by simp
  next
    case notin: False
    show ?thesis
    proof (cases "(x, y) = c")
      case True
      then show ?thesis using IH one v notin by simp
    next
      case False
      then show ?thesis using IH one notin by simp
    qed
  qed
qed

lemma fill_in_order_succeeds:
  assumes "\<forall>c \<in> set cs. fst c < im_width img \<and> snd c < im_height img
                        \<and> (\<exists>v. lookup_rgb pal tbl c = Inr v)"
  shows "\<exists>img'. fill_in_order pal tbl cs img = Inr img'"
  using assms
proof (induction cs arbitrary: img)
  case Nil
  then show ?case by simp
next
  case (Cons c cs)
  obtain p s where c: "c = (p, s)" by (cases c)
  from Cons.prems obtain v where v: "lookup_rgb pal tbl (p, s) = Inr v" unfolding c by auto
  have bnd: "p < im_width img" "s < im_height img" using Cons.prems c by simp_all
  define img1 where "img1 = img\<lparr>im_data := (im_data img)[s * im_width img + p := clip_rgb v]\<rparr>"
  have "putpixel img (p, s) v = Inr img1" using bnd by (simp add: img1_def)
  hence step: "fill_pixel pal tbl p s img = Inr img1"
    using v by (simp only: fill_pixel_lookup sum.case)
  have "\<forall>c \<in> set cs. fst c < im_width img1 \<and> snd c < im_height img1
                        \<and> (\<exists>v. lookup_rgb pal tbl c = Inr v)"
    using Cons.prems by (simp add: img1_def)
  from Cons.IH[OF this] obtain img' where "fill_in_order pal tbl cs img1 = Inr img'" by blast
  hence "fill_in_order pal tbl (c # cs) img = Inr img'"
    unfolding c using step by (simp only: fill_in_order.simps fst_conv snd_conv sum.case)
  then show ?case by blast
qed

lemma Image_new_fields:
  "im_mode (Image_new m (w, h)) = m" "im_width (Image_new m (w, h)) = w"
  "im_height (Image_new m (w, h)) = h" "im_data (Image_new m (w, h)) = replicate (w * h) (0, 0, 0)"
  by (simp_all add: Image_new_def)

lemma build_succeeds:
  assumes "\<And>p s. p < 32 \<Longrightarrow> s < 8 \<Longrightarrow> \<exists>v. lookup_rgb pal tbl (p, s) = Inr v"
  shows "\<exists>img. build pal tbl = Inr img"
proof -
  have "\<forall>c \<in> set raster. fst c < im_width (Image_new ''RGB'' (width, height))
          \<and> snd c < im_height (Image_new ''RGB'' (width, height))
          \<and> (\<exists>v. lookup_rgb pal tbl c = Inr v)"
  proof
    fix c assume "c \<in> set raster"
    then obtain p s where c: "c = (p, s)" and "p < 32" "s < 8" by (auto simp: set_raster)
    with assms[of p s] show "fst c < im_width (Image_new ''RGB'' (width, height))
          \<and> snd c < im_height (Image_new ''RGB'' (width, height))
          \<and> (\<exists>v. lookup_rgb pal tbl c = Inr v)"
      by (simp add: Image_new_fields width_def height_def)
  qed
  from fill_in_order_succeeds[OF this] show ?thesis by (simp only: build_in_order)
qed

lemma lookup_rgb_ok:
  assumes "length pal = 32" "tbl p = Some row" "s < length row" "0 \<le> row ! s" "row ! s < 32"
  shows "lookup_rgb pal tbl (p, s) = Inr (pal ! nat (row ! s))"
  using assms by simp

lemma clip_rgb_ok:
  assumes "palette_ok pal" "i < 32"
  shows "clip_rgb (pal ! i) = pal ! i"
proof -
  from assms have "pal ! i \<in> set pal" by (simp add: palette_ok_def)
  with assms(1) show ?thesis by (cases "pal ! i") (auto simp: palette_ok_def clip8_def)
qed

lemma shadow_table_okD:
  assumes "shadow_table_ok tbl" "p < 32"
  obtains row where "tbl p = Some row" "length row = 8" "\<And>s. s < 8 \<Longrightarrow> 0 \<le> row ! s \<and> row ! s < 32"
proof -
  have "p \<in> {0..<32}" using assms(2) by simp
  with assms(1) have c: "case tbl p of None \<Rightarrow> False
        | Some row \<Rightarrow> length row = 8 \<and> (\<forall>v \<in> set row. 0 \<le> v \<and> v < 32)"
    unfolding shadow_table_ok_def by (rule bspec)
  then obtain row where row: "tbl p = Some row" by (cases "tbl p") simp_all
  with c have l: "length row = 8" and r: "\<forall>v \<in> set row. 0 \<le> v \<and> v < 32" by simp_all
  have "\<And>s. s < 8 \<Longrightarrow> 0 \<le> row ! s \<and> row ! s < 32" using l r by simp
  with row l show ?thesis by (rule that)
qed

lemma palette_colors_ok: "palette_ok palette_colors"
  by (simp add: palette_ok_def palette_colors_def)

lemma shadow_levels_ok: "shadow_table_ok shadow_levels"
  unfolding shadow_table_ok_def shadow_levels_def shadow_rows_def
  by code_simp

lemma fill_all_Inr:
  assumes run: "fill_in_order pal tbl cells (Image_new ''RGB'' (width, height)) = Inr img"
    and cells: "set cells = {0..<32} \<times> {0..<8}"
  shows "im_mode img = ''RGB''" "im_width img = 32" "im_height img = 8"
    "length (im_data img) = 256"
    "\<And>p s. p < 32 \<Longrightarrow> s < 8 \<Longrightarrow>
       \<exists>v. lookup_rgb pal tbl (p, s) = Inr v \<and> getpixel img (p, s) = Inr (clip_rgb v)"
    "\<And>i. i < 256 \<Longrightarrow> im_data img ! i = clip_rgb (projr (lookup_rgb pal tbl (i mod 32, i div 32)))"
proof -
  let ?new = "Image_new ''RGB'' (width, height)"
  note F = fill_in_order_Inr[OF run]
  show m: "im_mode img = ''RGB''" using F by (simp add: Image_new_fields)
  show w: "im_width img = 32" using F by (simp add: Image_new_fields width_def)
  show h: "im_height img = 8" using F by (simp add: Image_new_fields height_def)
  show "length (im_data img) = 256" using F by (simp add: Image_new_fields width_def height_def)
  have px: "im_data img ! (s * 32 + p) = clip_rgb (projr (lookup_rgb pal tbl (p, s)))"
    if p: "p < 32" and s: "s < 8" for p s
  proof -
    have mem: "(p, s) \<in> set cells" using p s cells by simp
    have "im_data img ! (s * im_width ?new + p) =
          (if (p, s) \<in> set cells then clip_rgb (projr (lookup_rgb pal tbl (p, s)))
           else im_data ?new ! (s * im_width ?new + p))"
      by (rule fill_in_order_pixel[OF run]) (simp_all add: Image_new_fields width_def height_def p s)
    then show ?thesis using mem by (simp add: Image_new_fields width_def)
  qed
  show "\<exists>v. lookup_rgb pal tbl (p, s) = Inr v \<and> getpixel img (p, s) = Inr (clip_rgb v)"
    if p: "p < 32" and s: "s < 8" for p s
  proof -
    have mem: "(p, s) \<in> set cells" using p s cells by simp
    with F obtain v where v: "lookup_rgb pal tbl (p, s) = Inr v" by blast
    have "getpixel img (p, s) = Inr (clip_rgb v)" using px[OF p s] v w h p s by simp
    with v show ?thesis by blast
  qed
  show "im_data img ! i = clip_rgb (projr (lookup_rgb pal tbl (i mod 32, i div 32)))"
    if i: "i < 256" for i
  proof -
    have "i mod 32 < 32" "i div 32 < 8" using i by simp_all
    from px[OF this] show ?thesis by simp
  qed
qed

lemmas build_Inr = fill_all_Inr[OF _ set_raster, folded build_in_order]

lemma fill_any_order:
  assumes b: "build pal tbl = Inr img" and cells: "set cells = {0..<32} \<times> {0..<8}"
  shows "fill_in_order pal tbl cells (Image_new ''RGB'' (width, height)) = Inr img"
proof -
  let ?new = "Image_new ''RGB'' (width, height)"
  from b have run: "fill_in_order pal tbl raster ?new = Inr img" by (simp only: build_in_order)
  note F = fill_in_order_Inr[OF run]
  have "\<forall>c \<in> set cells. fst c < im_width ?new \<and> snd c < im_height ?new
          \<and> (\<exists>v. lookup_rgb pal tbl c = Inr v)"
    using F cells set_raster by simp
  from fill_in_order_succeeds[OF this] obtain img' where
    run': "fill_in_order pal tbl cells ?new = Inr img'" by blast
  note A = fill_all_Inr[OF run set_raster] and B = fill_all_Inr[OF run' cells]
  have "im_data img' = im_data img"
  proof (rule nth_equalityI)
    show "length (im_data img') = length (im_data img)" using A(4) B(4) by simp
  next
    fix i assume "i < length (im_data img')"
    hence i: "i < 256" using B(4) by simp
    show "im_data img' ! i = im_data img ! i" using A(6)[OF i] B(6)[OF i] by simp
  qed
  hence "img' = img" using A(1-3) B(1-3) by (intro image.equality) simp_all
  with run' show ?thesis by simp
qed

lemma list_getitem_Inr_mem: "list_getitem xs i = Inr v \<Longrightarrow> v \<in> set xs"
  by (auto split: if_splits)

lemma lookup_rgb_Inr_mem:
  assumes "lookup_rgb pal tbl c = Inr v"
  shows "v \<in> set pal"
proof -
  obtain p s where c: "c = (p, s)" by (cases c)
  from assms obtain idx where "list_getitem pal idx = Inr v"
    unfolding c lookup_rgb.simps
    by (cases "dict_getitem tbl p"; cases "list_getitem (projr (dict_getitem tbl p)) (int s)")
       (simp_all del: list_getitem.simps dict_getitem.simps)
  then show ?thesis by (rule list_getitem_Inr_mem)
qed

lemma clip_rgb_mem:
  assumes "palette_ok pal" "v \<in> set pal"
  shows "clip_rgb v = v"
  using assms by (cases v) (auto simp: palette_ok_def clip8_def)

lemma build_pixels_in_palette:
  assumes pal: "palette_ok pal" and b: "build pal tbl = Inr img"
  shows "set (im_data img) \<subseteq> set pal"
proof
  fix c assume "c \<in> set (im_data img)"
  then obtain i where i: "i < length (im_data img)" and c: "c = im_data img ! i"
    by (auto simp: in_set_conv_nth)
  note B = build_Inr[OF b]
  have i256: "i < 256" using i B(4) by simp
  have p: "i mod 32 < 32" and s: "i div 32 < 8" using i256 by simp_all
  from B(5)[OF p s] obtain v where v: "lookup_rgb pal tbl (i mod 32, i div 32) = Inr v" by blast
  have "c = clip_rgb v" using c B(6)[OF i256] v by simp
  also have "\<dots> = v" using pal lookup_rgb_Inr_mem[OF v] by (rule clip_rgb_mem)
  finally show "c \<in> set pal" using lookup_rgb_Inr_mem[OF v] by simp
qed

lemma build_ok:
  assumes pal: "palette_ok pal" and tbl: "shadow_table_ok tbl"
  obtains img where "build pal tbl = Inr img"
    and "\<And>p s row. p < 32 \<Longrightarrow> s < 8 \<Longrightarrow> tbl p = Some row \<Longrightarrow>
           getpixel img (p, s) = Inr (pal ! nat (row ! s))"
proof -
  have len: "length pal = 32" using pal by (simp add: palette_ok_def)
  have look: "lookup_rgb pal tbl (p, s) = Inr (pal ! nat (row ! s))"
    if p: "p < 32" and s: "s < 8" and row: "tbl p = Some row" for p s row
  proof -
    from shadow_table_okD[OF tbl p] row obtain "length row = 8" "0 \<le> row ! s \<and> row ! s < 32"
      using s by auto
    then show ?thesis using len row s by (intro lookup_rgb_ok) simp_all
  qed
  have "\<exists>v. lookup_rgb pal tbl (p, s) = Inr v" if p: "p < 32" and s: "s < 8" for p s
  proof -
    from shadow_table_okD[OF tbl p] obtain row where "tbl p = Some row" by blast
    from look[OF p s this] show ?thesis by blast
  qed
  from build_succeeds[OF this] obtain img where b: "build pal tbl = Inr img" by blast
  have "getpixel img (p, s) = Inr (pal ! nat (row ! s))"
    if p: "p < 32" and s: "s < 8" and row: "tbl p = Some row" for p s row
  proof -
    from build_Inr(5)[OF b p s] obtain v where
      v: "lookup_rgb pal tbl (p, s) = Inr v" and g: "getpixel img (p, s) = Inr (clip_rgb v)"
      by blast
    have veq: "v = pal ! nat (row ! s)" using v look[OF p s row] by simp
    from shadow_table_okD[OF tbl p] row s have "0 \<le> row ! s \<and> row ! s < 32" by auto
    hence "nat (row ! s) < 32" by linarith
    from clip_rgb_ok[OF pal this] g veq show ?thesis by simp
  qed
  with b show thesis by (rule that)
qed

lemma files_print: "files (print l w) = files w"
  by (simp add: print_def)

lemma script_build_fails: "build pal tbl = Inl e \<Longrightarrow> script pal tbl w = (Inl e, w)"
  by (simp add: script_def)

lemma script_save_fails:
  "build pal tbl = Inr img \<Longrightarrow> \<not> writable w output_path \<Longrightarrow> script pal tbl w = (Inl OSError, w)"
  by (simp add: script_def save_def)

lemma script_ok:
  assumes "build pal tbl = Inr img" "writable w output_path"
  obtains w' where "script pal tbl w = (Inr (), w')" "files w' = (files w)(output_path \<mapsto> img)"
  using assms by (simp add: script_def save_def files_print)

lemma script_Inl:
  assumes "script pal tbl w = (Inl e, w')"
  shows "w' = w"
proof (cases "build pal tbl")
  case (Inl e')
  from script_build_fails[OF this, of w] assms show ?thesis by simp
next
  case (Inr img)
  show ?thesis
  proof (cases "writable w output_path")
    case True
    from script_ok[OF Inr True] assms show ?thesis by auto
  next
    case False
    from script_save_fails[OF Inr False] assms show ?thesis by simp
  qed
qed

lemma script_Inr:
  assumes "script pal tbl w = (Inr (), w')"
  obtains img where "build pal tbl = Inr img" "writable w output_path"
    "files w' = (files w)(output_path \<mapsto> img)"
proof (cases "build pal tbl")
  case (Inl e')
  from script_build_fails[OF this, of w] assms show ?thesis by simp
next
  case (Inr img)
  show ?thesis
  proof (cases "writable w output_path")
    case True
    from script_ok[OF Inr True] assms have "files w' = (files w)(output_path \<mapsto> img)" by auto
    with Inr True show ?thesis by (rule that)
  next
    case False
    from script_save_fails[OF Inr False] assms show ?thesis by simp
  qed
qed

lemma list_getitem_in_range:
  "- int (length xs) \<le> i \<Longrightarrow> i < int (length xs) \<Longrightarrow> \<exists>v. list_getitem xs i = Inr v"
  by simp

lemma list_getitem_Inl: "list_getitem xs i = Inl e \<Longrightarrow> e = IndexError"
  by (simp split: if_splits)

lemma putpixel_Inl: "putpixel img c v = Inl e \<Longrightarrow> e = IndexError"
  by (cases c) (simp split: if_splits)

lemma lookup_rgb_Inl:
  assumes "lookup_rgb pal tbl (p, s) = Inl e" "tbl p = Some row"
  shows "e = IndexError"
proof (cases "list_getitem row (int s)")
  case (Inl e')
  with assms have "e' = e" by (simp del: list_getitem.simps)
  with Inl show ?thesis by (auto dest: list_getitem_Inl simp del: list_getitem.simps)
next
  case (Inr idx)
  with assms have "list_getitem pal idx = Inl e" by (simp del: list_getitem.simps)
  then show ?thesis by (rule list_getitem_Inl)
qed

lemma fill_pixel_Inl:
  assumes "fill_pixel pal tbl p s img = Inl e" "tbl p \<noteq> None"
  shows "e = IndexError"
proof -
  from assms(2) obtain row where row: "tbl p = Some row" by blast
  show ?thesis
  proof (cases "lookup_rgb pal tbl (p, s)")
    case (Inl e')
    with assms(1) have "e' = e" by (simp only: fill_pixel_lookup sum.case sum.inject)
    with Inl row show ?thesis by (auto dest: lookup_rgb_Inl simp del: lookup_rgb.simps)
  next
    case (Inr v)
    with assms(1) have "putpixel img (p, s) v = Inl e" by (simp only: fill_pixel_lookup sum.case)
    then show ?thesis by (rule putpixel_Inl)
  qed
qed

lemma fill_in_order_Inl:
  assumes "fill_in_order pal tbl cs img = Inl e" "\<forall>c \<in> set cs. tbl (fst c) \<noteq> None"
  shows "e = IndexError"
  using assms
proof (induction cs arbitrary: img)
  case Nil
  then show ?case by simp
next
  case (Cons c cs)
  show ?case
  proof (cases "fill_pixel pal tbl (fst c) (snd c) img")
    case (Inl e')
    with Cons.prems(1) have "e' = e" by (simp del: fill_pixel.simps)
    with Inl Cons.prems(2) show ?thesis by (intro fill_pixel_Inl[of pal tbl "fst c" "snd c" img]) simp_all
  next
    case (Inr img1)
    with Cons.prems(1) have "fill_in_order pal tbl cs img1 = Inl e" by (simp del: fill_pixel.simps)
    then show ?thesis using Cons.prems(2) by (intro Cons.IH) simp_all
  qed
qed

lemma build_IndexError:
  assumes len: "length pal = 32" and keys: "{0..<32} \<subseteq> dom tbl"
    and p: "p < 32" and s: "s < 8" and row: "tbl p = Some row" and sl: "s < length row"
    and bad: "row ! s < - 32 \<or> 32 \<le> row ! s"
  shows "build pal tbl = Inl IndexError"
proof (cases "build pal tbl")
  case (Inr img)
  from build_Inr(5)[OF Inr p s] obtain v where "lookup_rgb pal tbl (p, s) = Inr v" by blast
  moreover have "lookup_rgb pal tbl (p, s) = Inl IndexError"
    using len row sl bad by auto
  ultimately show ?thesis by simp
next
  case (Inl e)
  hence "fill_in_order pal tbl raster (Image_new ''RGB'' (width, height)) = Inl e"
    by (simp only: build_in_order)
  moreover have "\<forall>c \<in> set raster. tbl (fst c) \<noteq> None"
    using keys by (auto simp: set_raster)
  ultimately have "e = IndexError" by (rule fill_in_order_Inl)
  with Inl show ?thesis by simp
qed

lemma build_wraps:
  assumes len: "length pal = 32"
    and tbl: "\<forall>p \<in> {0..<32}. case tbl p of None \<Rightarrow> False
                | Some row \<Rightarrow> length row = 8 \<and> (\<forall>v \<in> set row. - 32 \<le> v \<and> v < 32)"
  shows "\<exists>img. build pal tbl = Inr img"
proof (rule build_succeeds)
  fix p s :: nat
  assume p: "p < 32" and s: "s < 8"
  hence "p \<in> {0..<32}" by simp
  with tbl have c: "case tbl p of None \<Rightarrow> False
                | Some row \<Rightarrow> length row = 8 \<and> (\<forall>v \<in> set row. - 32 \<le> v \<and> v < 32)"
    by (rule bspec)
  then obtain row where row: "tbl p = Some row" by (cases "tbl p") simp_all
  with c have l: "length row = 8" and r: "\<forall>v \<in> set row. - 32 \<le> v \<and> v < 32" by simp_all
  have "- 32 \<le> row ! s \<and> row ! s < 32" using l r s by simp
  hence "\<exists>v. list_getitem pal (row ! s) = Inr v" using len by (intro list_getitem_in_range) simp_all
  then obtain v where "list_getitem pal (row ! s) = Inr v" by blast
  hence "lookup_rgb pal tbl (p, s) = Inr v" using row l s by (simp del: list_getitem.simps) simp
  then show "\<exists>v. lookup_rgb pal tbl (p, s) = Inr v" by blast
qed

lemma dom_shadow_levels: "dom shadow_levels = {0..<32}"
proof -
  have "map fst shadow_rows = [0..<32]" unfolding shadow_rows_def by code_simp
  hence "fst ` set shadow_rows = set [0..<32]" by (metis set_map)
  then show ?thesis by (simp add: shadow_levels_def dom_map_of_conv_image_fst)
qed

lemma shadow_levels_ends:
  "\<forall>p \<in> {0..<32}. case shadow_levels p of None \<Rightarrow> False
       | Some row \<Rightarrow> row ! 0 = int p \<and> row ! 7 = 0"
  unfolding shadow_levels_def shadow_rows_def by code_simp

lemma shadow_levels_endsD:
  assumes "p < 32"
  obtains row where "shadow_levels p = Some row" "row ! 0 = int p" "row ! 7 = 0" "length row = 8"
proof -
  have "p \<in> {0..<32}" using assms by simp
  with shadow_levels_ends have c: "case shadow_levels p of None \<Rightarrow> False
       | Some row \<Rightarrow> row ! 0 = int p \<and> row ! 7 = 0" by (rule bspec)
  then obtain row where row: "shadow_levels p = Some row" by (cases "shadow_levels p") simp_all
  with c have "row ! 0 = int p" "row ! 7 = 0" by simp_all
  moreover from shadow_table_okD[OF shadow_levels_ok assms] row have "length row = 8" by auto
  ultimately show ?thesis using row by (intro that)
qed

lemma shadow_levels_8: "shadow_levels 8 = Some [8, 8, 24, 24, 2, 21, 1, 0]"
  by (simp add: shadow_levels_def shadow_rows_def)

section \<open>The claims\<close>

text \<open>
  C1. For every palette index \<open>p\<close> in [0,32) and every shadow level \<open>s\<close> in [0,8), the
  pixel the build writes at column \<open>p\<close>, row \<open>s\<close> is exactly
  \<open>palette[shadowTable[p][s]]\<close>, and the whole 32x8 grid is filled: for every palette
  of 32 colours with 8-bit channels and every table of 32 rows of 8 valid indices the
  build returns an image, and each of its 256 pixels is the looked-up colour unchanged.
\<close>

theorem build_pixel_exact:
  assumes "palette_ok pal" and "shadow_table_ok tbl"
  shows "\<exists>img. build pal tbl = Inr img \<and> im_width img = 32 \<and> im_height img = 8
           \<and> length (im_data img) = 32 * 8
           \<and> (\<forall>p<32. \<forall>s<8. \<exists>row. tbl p = Some row \<and> list_getitem row (int s) = Inr (row ! s)
                  \<and> list_getitem pal (row ! s) = Inr (pal ! nat (row ! s))
                  \<and> getpixel img (p, s) = Inr (pal ! nat (row ! s)))"
proof -
  from build_ok[OF assms] obtain img where b: "build pal tbl = Inr img"
    and px: "\<And>p s row. p < 32 \<Longrightarrow> s < 8 \<Longrightarrow> tbl p = Some row \<Longrightarrow>
           getpixel img (p, s) = Inr (pal ! nat (row ! s))" by blast
  have len: "length pal = 32" using assms(1) by (simp add: palette_ok_def)
  have "\<exists>row. tbl p = Some row \<and> list_getitem row (int s) = Inr (row ! s)
                  \<and> list_getitem pal (row ! s) = Inr (pal ! nat (row ! s))
                  \<and> getpixel img (p, s) = Inr (pal ! nat (row ! s))"
    if p: "p < 32" and s: "s < 8" for p s
  proof -
    from shadow_table_okD[OF assms(2) p] obtain row where row: "tbl p = Some row"
      and l: "length row = 8" and r: "\<And>s. s < 8 \<Longrightarrow> 0 \<le> row ! s \<and> row ! s < 32" by blast
    have "list_getitem row (int s) = Inr (row ! s)" using l s by simp
    moreover have "list_getitem pal (row ! s) = Inr (pal ! nat (row ! s))" using len r[OF s] by simp
    ultimately show ?thesis using row px[OF p s row] by blast
  qed
  with b build_Inr(2,3,4)[OF b] show ?thesis by auto
qed

theorem build_pixel_exact_witness:
  "palette_ok palette_colors \<and> shadow_table_ok shadow_levels \<and>
   (\<exists>img. build palette_colors shadow_levels = Inr img \<and> length (im_data img) = 256
      \<and> getpixel img (30, 5) = Inr (0x49, 0x2d, 0x38))"
proof -
  from build_pixel_exact[OF palette_colors_ok shadow_levels_ok] obtain img where
    b: "build palette_colors shadow_levels = Inr img" and l: "length (im_data img) = 32 * 8"
    and px: "\<forall>p<32. \<forall>s<8. \<exists>row. shadow_levels p = Some row
                  \<and> list_getitem row (int s) = Inr (row ! s)
                  \<and> list_getitem palette_colors (row ! s) = Inr (palette_colors ! nat (row ! s))
                  \<and> getpixel img (p, s) = Inr (palette_colors ! nat (row ! s))" by blast
  have r30: "shadow_levels 30 = Some [30, 30, 24, 24, 2, 21, 1, 0]"
    by (simp add: shadow_levels_def shadow_rows_def)
  have "(30::nat) < 32" "(5::nat) < 8" by simp_all
  from px[rule_format, OF this] obtain row where row: "shadow_levels 30 = Some row"
    and g: "getpixel img (30, 5) = Inr (palette_colors ! nat (row ! 5))" by blast
  from row r30 have "row = [30, 30, 24, 24, 2, 21, 1, 0]" by simp
  hence "row ! 5 = 21" by simp
  with g have "getpixel img (30, 5) = Inr (palette_colors ! nat 21)" by simp
  hence "getpixel img (30, 5) = Inr (0x49, 0x2d, 0x38)" by (simp add: palette_colors_def)
  with b l palette_colors_ok shadow_levels_ok show ?thesis by auto
qed

text \<open>
  C2, as the code behaves. The script has no validation step: an entry of the shadow
  table is only ever used as a list index into the palette, and a Python list accepts
  the indices from \<open>-32\<close> up to \<open>-1\<close>, counting from the end. With the reference
  palette and the reference table except for the entry of key 8 at level 2 set to
  \<open>-1\<close>, an entry outside [0,32), the build does not fail: it returns an image whose
  pixel (8, 2) is \<open>palette[31]\<close>, and the script writes that image to the output file.
\<close>

theorem negative_entry_wraps:
  "(shadow_levels(8 \<mapsto> [8, 8, - 1, 24, 2, 21, 1, 0])) 8 = Some [8, 8, - 1, 24, 2, 21, 1, 0]
   \<and> [8, 8, - 1, 24, 2, 21, 1, 0] ! 2 < (0::int)
   \<and> palette_colors ! 31 = (0xff, 0x85, 0x6d)
   \<and> (\<exists>img w'. build palette_colors (shadow_levels(8 \<mapsto> [8, 8, - 1, 24, 2, 21, 1, 0])) = Inr img
          \<and> getpixel img (8, 2) = Inr (0xff, 0x85, 0x6d)
          \<and> script palette_colors (shadow_levels(8 \<mapsto> [8, 8, - 1, 24, 2, 21, 1, 0])) empty_world
               = (Inr (), w')
          \<and> files w' output_path = Some img)"
proof -
  let ?tbl = "shadow_levels(8 \<mapsto> [8, 8, - 1, 24, 2, 21, 1, 0])"
  have len: "length palette_colors = 32"
    using palette_colors_ok[unfolded palette_ok_def] by (rule conjunct1)
  have shape: "\<forall>p \<in> {0..<32}. case ?tbl p of None \<Rightarrow> False
                | Some row \<Rightarrow> length row = 8 \<and> (\<forall>v \<in> set row. - 32 \<le> v \<and> v < 32)"
  proof
    fix p :: nat assume p: "p \<in> {0..<32}"
    show "case ?tbl p of None \<Rightarrow> False
                | Some row \<Rightarrow> length row = 8 \<and> (\<forall>v \<in> set row. - 32 \<le> v \<and> v < 32)"
    proof (cases "p = 8")
      case True
      then show ?thesis by simp
    next
      case False
      from shadow_levels_ok[unfolded shadow_table_ok_def] p
      have c: "case shadow_levels p of None \<Rightarrow> False
               | Some row \<Rightarrow> length row = 8 \<and> (\<forall>v \<in> set row. 0 \<le> v \<and> v < 32)"
        by (rule bspec)
      show ?thesis
      proof (cases "shadow_levels p")
        case None
        with c show ?thesis by simp
      next
        case (Some row)
        with c have l: "length row = 8" and r: "\<forall>v \<in> set row. 0 \<le> v \<and> v < 32" by simp_all
        from r have "\<forall>v \<in> set row. - 32 \<le> v \<and> v < 32" by auto
        with l Some False show ?thesis by simp
      qed
    qed
  qed
  from build_wraps[OF len shape] obtain img where b: "build palette_colors ?tbl = Inr img"
    by blast
  have "(8::nat) < 32" "(2::nat) < 8" by simp_all
  from build_Inr(5)[OF b this] obtain v where
    v: "lookup_rgb palette_colors ?tbl (8, 2) = Inr v"
    and g: "getpixel img (8, 2) = Inr (clip_rgb v)" by blast
  have "lookup_rgb palette_colors ?tbl (8, 2) = Inr (0xff, 0x85, 0x6d)"
    by (simp add: palette_colors_def)
  with v have "v = (0xff, 0x85, 0x6d)" by simp
  hence "clip_rgb v = (0xff, 0x85, 0x6d)" by (simp add: clip8_def)
  with g have g': "getpixel img (8, 2) = Inr (0xff, 0x85, 0x6d)" by (simp del: getpixel.simps)
  have wr: "writable empty_world output_path" by (simp add: empty_world_def)
  from script_ok[OF b wr] obtain w' where
    s: "script palette_colors ?tbl empty_world = (Inr (), w')"
    and f: "files w' = (files empty_world)(output_path \<mapsto> img)" by blast
  from f have f': "files w' output_path = Some img" by simp
  have r: "?tbl 8 = Some [8, 8, - 1, 24, 2, 21, 1, 0]" by simp
  have n: "[8, 8, - 1, 24, 2, 21, 1, 0] ! 2 < (0::int)" by simp
  have c31: "palette_colors ! 31 = (0xff, 0x85, 0x6d)" by (simp add: palette_colors_def)
  from b g' s f' have "\<exists>img w'. build palette_colors ?tbl = Inr img
          \<and> getpixel img (8, 2) = Inr (0xff, 0x85, 0x6d)
          \<and> script palette_colors ?tbl empty_world = (Inr (), w')
          \<and> files w' output_path = Some img"
    by (intro exI[of _ img] exI[of _ w'] conjI)
  with r n c31 show ?thesis by (intro conjI)
qed

text \<open>
  C2, amended. For a palette of 32 colours with channels in 0..255 and a shadow table
  with a row of 8 entries for each of the keys 0..31, in any world:
  the build raises IndexError exactly when some entry is below \<open>-32\<close> or at least 32,
  and then the script ends with IndexError in the world it started in, having written no
  file; the build returns an image exactly when every entry is in [-32,32). In an image
  the build returns, the pixel of every cell is the palette colour at the entry itself
  when the entry is not negative, and at \<open>32 + entry\<close> when it is negative: a negative
  entry is not rejected, it counts from the end of the palette. Where the output path
  can be written, the script then writes that image to the output file.
\<close>

theorem invalid_index_iff_beyond_wrap:
  assumes pal: "palette_ok pal"
    and shape: "\<forall>p<32. \<exists>row. tbl p = Some row \<and> length row = 8"
  shows "(build pal tbl = Inl IndexError)
           = (\<exists>p<32. \<exists>s<8. \<exists>row. tbl p = Some row \<and> (row ! s < - 32 \<or> 32 \<le> row ! s))
       \<and> (build pal tbl = Inl IndexError \<longrightarrow> script pal tbl w = (Inl IndexError, w))
       \<and> (\<exists>img. build pal tbl = Inr img)
           = (\<forall>p<32. \<forall>s<8. \<forall>row. tbl p = Some row \<longrightarrow> - 32 \<le> row ! s \<and> row ! s < 32)
       \<and> (\<forall>img. build pal tbl = Inr img \<longrightarrow>
            (\<forall>p<32. \<forall>s<8. \<forall>row. tbl p = Some row \<longrightarrow>
                 list_getitem pal (row ! s)
                   = Inr (pal ! nat (if 0 \<le> row ! s then row ! s else 32 + row ! s))
               \<and> getpixel img (p, s)
                   = Inr (pal ! nat (if 0 \<le> row ! s then row ! s else 32 + row ! s)))
            \<and> (writable w output_path \<longrightarrow>
                 (\<exists>w'. script pal tbl w = (Inr (), w')
                       \<and> files w' = (files w)(output_path \<mapsto> img))))"
proof -
  let ?Q = "\<exists>p<32. \<exists>s<8. \<exists>row. tbl p = Some row \<and> (row ! s < - 32 \<or> 32 \<le> row ! s)"
  let ?R = "\<forall>p<32. \<forall>s<8. \<forall>row. tbl p = Some row \<longrightarrow> - 32 \<le> row ! s \<and> row ! s < 32"
  have len: "length pal = 32" using pal[unfolded palette_ok_def] by (rule conjunct1)
  have QR: "?R = (\<not> ?Q)"
  proof
    assume r: ?R
    show "\<not> ?Q"
    proof
      assume ?Q
      then obtain p s row where p: "p < 32" and s: "s < 8" and row: "tbl p = Some row"
        and bad: "row ! s < - 32 \<or> 32 \<le> row ! s" by blast
      from r p s row have "- 32 \<le> row ! s \<and> row ! s < 32" by blast
      with bad show False by linarith
    qed
  next
    assume nq: "\<not> ?Q"
    show ?R
    proof (intro allI impI)
      fix p s :: nat and row :: "int list"
      assume "p < 32" "s < 8" "tbl p = Some row"
      with nq have "\<not> (row ! s < - 32 \<or> 32 \<le> row ! s)" by blast
      then show "- 32 \<le> row ! s \<and> row ! s < 32" by linarith
    qed
  qed
  have keys: "{0..<32} \<subseteq> dom tbl"
  proof
    fix p :: nat assume "p \<in> {0..<32}"
    hence "p < 32" by simp
    with shape obtain row where "tbl p = Some row" by blast
    then show "p \<in> dom tbl" by blast
  qed
  have fails: "build pal tbl = Inl IndexError" if q: ?Q
  proof -
    from q obtain p s row where p: "p < 32" and s: "s < 8" and row: "tbl p = Some row"
      and bad: "row ! s < - 32 \<or> 32 \<le> row ! s" by blast
    from shape p row have "length row = 8" by auto
    with s have sl: "s < length row" by simp
    from len keys p s row sl bad show ?thesis by (rule build_IndexError)
  qed
  have returns: "\<exists>img. build pal tbl = Inr img" if r: ?R
  proof -
    have "\<forall>p \<in> {0..<32}. case tbl p of None \<Rightarrow> False
                | Some row \<Rightarrow> length row = 8 \<and> (\<forall>v \<in> set row. - 32 \<le> v \<and> v < 32)"
    proof
      fix p :: nat assume "p \<in> {0..<32}"
      hence p: "p < 32" by simp
      with shape obtain row where row: "tbl p = Some row" and l: "length row = 8" by blast
      have "\<forall>v \<in> set row. - 32 \<le> v \<and> v < 32"
      proof
        fix v assume "v \<in> set row"
        then obtain s where "s < length row" and v: "row ! s = v" by (auto simp: in_set_conv_nth)
        with l have "s < 8" by simp
        with r p row have "- 32 \<le> row ! s \<and> row ! s < 32" by blast
        with v show "- 32 \<le> v \<and> v < 32" by simp
      qed
      with row l show "case tbl p of None \<Rightarrow> False
                | Some row \<Rightarrow> length row = 8 \<and> (\<forall>v \<in> set row. - 32 \<le> v \<and> v < 32)"
        by simp
    qed
    with len show ?thesis by (rule build_wraps)
  qed
  have A: "(build pal tbl = Inl IndexError) = ?Q"
  proof
    assume f: "build pal tbl = Inl IndexError"
    show ?Q
    proof (rule ccontr)
      assume "\<not> ?Q"
      with QR have ?R by simp
      from returns[OF this] f show False by simp
    qed
  next
    assume ?Q
    then show "build pal tbl = Inl IndexError" by (rule fails)
  qed
  have B: "build pal tbl = Inl IndexError \<longrightarrow> script pal tbl w = (Inl IndexError, w)"
    using script_build_fails[of pal tbl IndexError w] by blast
  have C: "(\<exists>img. build pal tbl = Inr img) = ?R"
  proof
    assume "\<exists>img. build pal tbl = Inr img"
    then obtain img where b: "build pal tbl = Inr img" ..
    show ?R
    proof (rule ccontr)
      assume "\<not> ?R"
      with QR have ?Q by simp
      from fails[OF this] b show False by simp
    qed
  next
    assume ?R
    then show "\<exists>img. build pal tbl = Inr img" by (rule returns)
  qed
  have D: "\<forall>img. build pal tbl = Inr img \<longrightarrow>
            (\<forall>p<32. \<forall>s<8. \<forall>row. tbl p = Some row \<longrightarrow>
                 list_getitem pal (row ! s)
                   = Inr (pal ! nat (if 0 \<le> row ! s then row ! s else 32 + row ! s))
               \<and> getpixel img (p, s)
                   = Inr (pal ! nat (if 0 \<le> row ! s then row ! s else 32 + row ! s)))
            \<and> (writable w output_path \<longrightarrow>
                 (\<exists>w'. script pal tbl w = (Inr (), w')
                       \<and> files w' = (files w)(output_path \<mapsto> img)))"
  proof (intro allI impI)
    fix img assume b: "build pal tbl = Inr img"
    hence "\<exists>img. build pal tbl = Inr img" by blast
    with C have r: ?R by simp
    have px: "\<forall>p<32. \<forall>s<8. \<forall>row. tbl p = Some row \<longrightarrow>
                 list_getitem pal (row ! s)
                   = Inr (pal ! nat (if 0 \<le> row ! s then row ! s else 32 + row ! s))
               \<and> getpixel img (p, s)
                   = Inr (pal ! nat (if 0 \<le> row ! s then row ! s else 32 + row ! s))"
    proof (intro allI impI)
      fix p s :: nat and row :: "int list"
      assume p: "p < 32" and s: "s < 8" and row: "tbl p = Some row"
      define i where "i = (if 0 \<le> row ! s then row ! s else 32 + row ! s)"
      from r p s row have rng: "- 32 \<le> row ! s \<and> row ! s < 32" by blast
      from shape p row have l: "length row = 8" by auto
      have g0: "list_getitem row (int s) = Inr (row ! s)" using l s by simp
      have g: "list_getitem pal (row ! s) = Inr (pal ! nat i)"
        using len rng by (simp add: i_def)
      have look: "lookup_rgb pal tbl (p, s) = Inr (pal ! nat i)"
        using row g0 g by (simp del: list_getitem.simps)
      from build_Inr(5)[OF b p s] obtain v where v: "lookup_rgb pal tbl (p, s) = Inr v"
        and gp: "getpixel img (p, s) = Inr (clip_rgb v)" by blast
      from v look have veq: "v = pal ! nat i" by simp
      have "0 \<le> i" "i < 32" using rng by (auto simp: i_def)
      hence "nat i < 32" by linarith
      from clip_rgb_ok[OF pal this] have "clip_rgb (pal ! nat i) = pal ! nat i" .
      with gp veq have gp': "getpixel img (p, s) = Inr (pal ! nat i)"
        by (simp del: getpixel.simps)
      from g gp' show "list_getitem pal (row ! s)
                   = Inr (pal ! nat (if 0 \<le> row ! s then row ! s else 32 + row ! s))
               \<and> getpixel img (p, s)
                   = Inr (pal ! nat (if 0 \<le> row ! s then row ! s else 32 + row ! s))"
        unfolding i_def by (rule conjI)
    qed
    have wr: "writable w output_path \<longrightarrow>
                 (\<exists>w'. script pal tbl w = (Inr (), w')
                       \<and> files w' = (files w)(output_path \<mapsto> img))"
    proof
      assume "writable w output_path"
      from script_ok[OF b this] obtain w' where "script pal tbl w = (Inr (), w')"
        "files w' = (files w)(output_path \<mapsto> img)" by blast
      then show "\<exists>w'. script pal tbl w = (Inr (), w')
                       \<and> files w' = (files w)(output_path \<mapsto> img)" by blast
    qed
    from px wr show "(\<forall>p<32. \<forall>s<8. \<forall>row. tbl p = Some row \<longrightarrow>
                 list_getitem pal (row ! s)
                   = Inr (pal ! nat (if 0 \<le> row ! s then row ! s else 32 + row ! s))
               \<and> getpixel img (p, s)
                   = Inr (pal ! nat (if 0 \<le> row ! s then row ! s else 32 + row ! s)))
            \<and> (writable w output_path \<longrightarrow>
                 (\<exists>w'. script pal tbl w = (Inr (), w')
                       \<and> files w' = (files w)(output_path \<mapsto> img)))"
      by (rule conjI)
  qed
  from A B C D show ?thesis by (intro conjI)
qed

theorem invalid_index_iff_beyond_wrap_witness:
  "palette_ok palette_colors
   \<and> (32::int) \<le> [8, 8, 32, 24, 2, 21, 1, 0] ! 2
   \<and> build palette_colors (shadow_levels(8 \<mapsto> [8, 8, 32, 24, 2, 21, 1, 0])) = Inl IndexError
   \<and> script palette_colors (shadow_levels(8 \<mapsto> [8, 8, 32, 24, 2, 21, 1, 0])) empty_world
       = (Inl IndexError, empty_world)
   \<and> files empty_world output_path = None
   \<and> writable empty_world output_path
   \<and> palette_colors ! 30 = (0xe4, 0x0d, 0xab)
   \<and> (\<exists>img w'. build palette_colors (shadow_levels(8 \<mapsto> [8, 8, - 2, 24, 2, 21, 1, 0])) = Inr img
          \<and> getpixel img (8, 2) = Inr (0xe4, 0x0d, 0xab)
          \<and> getpixel img (8, 3) = Inr (0xc3, 0x00, 0x4c)
          \<and> script palette_colors (shadow_levels(8 \<mapsto> [8, 8, - 2, 24, 2, 21, 1, 0])) empty_world
               = (Inr (), w')
          \<and> files w' = (files empty_world)(output_path \<mapsto> img))"
proof -
  let ?bad = "shadow_levels(8 \<mapsto> [8, 8, 32, 24, 2, 21, 1, 0])"
  let ?neg = "shadow_levels(8 \<mapsto> [8, 8, - 2, 24, 2, 21, 1, 0])"
  have shape: "\<forall>p<32. \<exists>row. (shadow_levels(8 \<mapsto> r)) p = Some row \<and> length row = 8"
    if "length r = 8" for r :: "int list"
  proof (intro allI impI)
    fix p :: nat assume p: "p < 32"
    show "\<exists>row. (shadow_levels(8 \<mapsto> r)) p = Some row \<and> length row = 8"
    proof (cases "p = 8")
      case True
      with that show ?thesis by simp
    next
      case False
      from shadow_table_okD[OF shadow_levels_ok p] obtain row where
        "shadow_levels p = Some row" "length row = 8" by blast
      with False show ?thesis by simp
    qed
  qed
  have "length [8, 8, 32, 24, 2, 21, 1, 0::int] = 8" by simp
  note t = invalid_index_iff_beyond_wrap[OF palette_colors_ok shape[OF this], of empty_world]
  have "length [8, 8, - 2, 24, 2, 21, 1, 0::int] = 8" by simp
  note u = invalid_index_iff_beyond_wrap[OF palette_colors_ok shape[OF this], of empty_world]
  have r: "?bad 8 = Some [8, 8, 32, 24, 2, 21, 1, 0]" by simp
  have n: "(32::int) \<le> [8, 8, 32, 24, 2, 21, 1, 0] ! 2" by simp
  have c82: "(8::nat) < 32" "(2::nat) < 8" by simp_all
  have c83: "(8::nat) < 32" "(3::nat) < 8" by simp_all
  from c82 r n have q: "\<exists>p<32. \<exists>s<8. \<exists>row. ?bad p = Some row \<and> (row ! s < - 32 \<or> 32 \<le> row ! s)"
    by blast
  from t have "(build palette_colors ?bad = Inl IndexError)
           = (\<exists>p<32. \<exists>s<8. \<exists>row. ?bad p = Some row \<and> (row ! s < - 32 \<or> 32 \<le> row ! s))"
    by (rule conjunct1)
  from this q have fail: "build palette_colors ?bad = Inl IndexError" by (rule iffD2)
  from t have "build palette_colors ?bad = Inl IndexError \<longrightarrow>
               script palette_colors ?bad empty_world = (Inl IndexError, empty_world)"
    by (rule conjunct1[OF conjunct2])
  from this[rule_format, OF fail]
  have s: "script palette_colors ?bad empty_world = (Inl IndexError, empty_world)" .
  have none: "files empty_world output_path = None" by (simp add: empty_world_def)
  have wr: "writable empty_world output_path" by (simp add: empty_world_def)
  have c30: "palette_colors ! 30 = (0xe4, 0x0d, 0xab)" by (simp add: palette_colors_def)
  have c24: "palette_colors ! 24 = (0xc3, 0x00, 0x4c)" by (simp add: palette_colors_def)
  have rn: "?neg 8 = Some [8, 8, - 2, 24, 2, 21, 1, 0]" by simp
  have inr: "\<forall>p<32. \<forall>s<8. \<forall>row. ?neg p = Some row \<longrightarrow> - 32 \<le> row ! s \<and> row ! s < 32"
  proof (intro allI impI)
    fix p s :: nat and row :: "int list"
    assume p: "p < 32" and s: "s < 8" and row: "?neg p = Some row"
    show "- 32 \<le> row ! s \<and> row ! s < 32"
    proof (cases "p = 8")
      case True
      with row have "row = [8, 8, - 2, 24, 2, 21, 1, 0]" by simp
      moreover from s have "s \<in> {0, 1, 2, 3, 4, 5, 6, 7}" by auto
      ultimately show ?thesis by auto
    next
      case False
      with row have "shadow_levels p = Some row" by simp
      with shadow_table_okD[OF shadow_levels_ok p] s have "0 \<le> row ! s \<and> row ! s < 32" by auto
      then show ?thesis by simp
    qed
  qed
  from u have "(\<exists>img. build palette_colors ?neg = Inr img)
           = (\<forall>p<32. \<forall>s<8. \<forall>row. ?neg p = Some row \<longrightarrow> - 32 \<le> row ! s \<and> row ! s < 32)"
    by (rule conjunct1[OF conjunct2[OF conjunct2]])
  from this inr have "\<exists>img. build palette_colors ?neg = Inr img" by (rule iffD2)
  then obtain img where b: "build palette_colors ?neg = Inr img" ..
  from u have "\<forall>img. build palette_colors ?neg = Inr img \<longrightarrow>
            (\<forall>p<32. \<forall>s<8. \<forall>row. ?neg p = Some row \<longrightarrow>
                 list_getitem palette_colors (row ! s)
                   = Inr (palette_colors ! nat (if 0 \<le> row ! s then row ! s else 32 + row ! s))
               \<and> getpixel img (p, s)
                   = Inr (palette_colors ! nat (if 0 \<le> row ! s then row ! s else 32 + row ! s)))
            \<and> (writable empty_world output_path \<longrightarrow>
                 (\<exists>w'. script palette_colors ?neg empty_world = (Inr (), w')
                       \<and> files w' = (files empty_world)(output_path \<mapsto> img)))"
    by (rule conjunct2[OF conjunct2[OF conjunct2]])
  from this[rule_format, OF b] have
    px: "\<forall>p<32. \<forall>s<8. \<forall>row. ?neg p = Some row \<longrightarrow>
                 list_getitem palette_colors (row ! s)
                   = Inr (palette_colors ! nat (if 0 \<le> row ! s then row ! s else 32 + row ! s))
               \<and> getpixel img (p, s)
                   = Inr (palette_colors ! nat (if 0 \<le> row ! s then row ! s else 32 + row ! s))"
    and w: "writable empty_world output_path \<longrightarrow>
                 (\<exists>w'. script palette_colors ?neg empty_world = (Inr (), w')
                       \<and> files w' = (files empty_world)(output_path \<mapsto> img))"
    by (rule conjunct1, rule conjunct2)
  from px[rule_format, OF c82 rn, THEN conjunct2]
  have "getpixel img (8, 2) = Inr (palette_colors ! 30)" by (simp del: getpixel.simps)
  with c30 have g2: "getpixel img (8, 2) = Inr (0xe4, 0x0d, 0xab)" by (simp del: getpixel.simps)
  from px[rule_format, OF c83 rn, THEN conjunct2]
  have "getpixel img (8, 3) = Inr (palette_colors ! 24)" by (simp del: getpixel.simps)
  with c24 have g3: "getpixel img (8, 3) = Inr (0xc3, 0x00, 0x4c)" by (simp del: getpixel.simps)
  from w[rule_format, OF wr] obtain w' where
    sn: "script palette_colors ?neg empty_world = (Inr (), w')"
    and f: "files w' = (files empty_world)(output_path \<mapsto> img)" by blast
  from b g2 g3 sn f have "\<exists>img w'. build palette_colors ?neg = Inr img
          \<and> getpixel img (8, 2) = Inr (0xe4, 0x0d, 0xab)
          \<and> getpixel img (8, 3) = Inr (0xc3, 0x00, 0x4c)
          \<and> script palette_colors ?neg empty_world = (Inr (), w')
          \<and> files w' = (files empty_world)(output_path \<mapsto> img)"
    by (intro exI[of _ img] exI[of _ w'] conjI)
  with palette_colors_ok n fail s none wr c30 show ?thesis by (intro conjI)
qed

text \<open>
  C3. For every palette index \<open>p\<close> in [0,32) the reference shadow table has
  \<open>shadowTable[p][0] == p\<close>, and the pixel at \<open>(p, 0)\<close> of the texture built from
  the reference tables is \<open>palette[p]\<close>: shadow level 0 is the base colour.
\<close>

theorem level0_is_base_color:
  assumes "p < 32"
  shows "(\<exists>row. shadow_levels p = Some row \<and> list_getitem row 0 = Inr (int p))
       \<and> (\<exists>img. build palette_colors shadow_levels = Inr img
              \<and> getpixel img (p, 0) = Inr (palette_colors ! p))"
proof -
  from shadow_levels_endsD[OF assms] obtain row where row: "shadow_levels p = Some row"
    and r0: "row ! 0 = int p" and l: "length row = 8" by blast
  have g: "list_getitem row 0 = Inr (int p)" using r0 l by simp
  from build_ok[OF palette_colors_ok shadow_levels_ok] obtain img where
    b: "build palette_colors shadow_levels = Inr img"
    and px: "\<And>p s row. p < 32 \<Longrightarrow> s < 8 \<Longrightarrow> shadow_levels p = Some row \<Longrightarrow>
           getpixel img (p, s) = Inr (palette_colors ! nat (row ! s))" by blast
  have "(0::nat) < 8" by simp
  from px[OF assms this row] r0 have "getpixel img (p, 0) = Inr (palette_colors ! p)"
    by (simp del: getpixel.simps)
  with g row b show ?thesis by blast
qed

theorem level0_is_base_color_witness:
  "(5::nat) < 32 \<and> (\<exists>row. shadow_levels 5 = Some row \<and> list_getitem row 0 = Inr 5)
   \<and> (\<exists>img. build palette_colors shadow_levels = Inr img
          \<and> getpixel img (5, 0) = Inr (0x5f, 0x57, 0x4f))"
proof -
  have h: "(5::nat) < 32" by simp
  have pc: "palette_colors ! 5 = (0x5f, 0x57, 0x4f)" by (simp add: palette_colors_def)
  from level0_is_base_color[OF h] obtain row img where r: "shadow_levels 5 = Some row"
    and g: "list_getitem row 0 = Inr (int 5)"
    and b: "build palette_colors shadow_levels = Inr img"
    and px: "getpixel img (5, 0) = Inr (palette_colors ! 5)" by blast
  from g have g': "list_getitem row 0 = Inr 5" by (simp del: list_getitem.simps)
  from px pc have px': "getpixel img (5, 0) = Inr (0x5f, 0x57, 0x4f)" by (simp del: getpixel.simps)
  from h r g' b px' show ?thesis by blast
qed

text \<open>
  C4. For every palette index \<open>p\<close> in [0,32), the pixel at \<open>(p, 7)\<close> of the texture
  built from the reference tables is \<open>palette[0]\<close>, and \<open>palette[0]\<close> is pure black.
\<close>

theorem level7_is_black:
  assumes "p < 32"
  shows "palette_colors ! 0 = (0, 0, 0)
       \<and> (\<exists>row. shadow_levels p = Some row \<and> list_getitem row 7 = Inr 0)
       \<and> (\<exists>img. build palette_colors shadow_levels = Inr img
              \<and> getpixel img (p, 7) = Inr (palette_colors ! 0)
              \<and> getpixel img (p, 7) = Inr (0, 0, 0))"
proof -
  from shadow_levels_endsD[OF assms] obtain row where row: "shadow_levels p = Some row"
    and r7: "row ! 7 = 0" and l: "length row = 8" by blast
  have g: "list_getitem row 7 = Inr 0" using r7 l by simp
  from build_ok[OF palette_colors_ok shadow_levels_ok] obtain img where
    b: "build palette_colors shadow_levels = Inr img"
    and px: "\<And>p s row. p < 32 \<Longrightarrow> s < 8 \<Longrightarrow> shadow_levels p = Some row \<Longrightarrow>
           getpixel img (p, s) = Inr (palette_colors ! nat (row ! s))" by blast
  have "(7::nat) < 8" by simp
  from px[OF assms this row] r7 have p7: "getpixel img (p, 7) = Inr (palette_colors ! 0)"
    by (simp del: getpixel.simps)
  have blk: "palette_colors ! 0 = (0, 0, 0)" by (simp add: palette_colors_def)
  from p7 blk have "getpixel img (p, 7) = Inr (0, 0, 0)" by (simp del: getpixel.simps)
  with blk g row b p7 show ?thesis by blast
qed

theorem level7_is_black_witness:
  "(23::nat) < 32 \<and> (\<exists>img. build palette_colors shadow_levels = Inr img
          \<and> getpixel img (23, 7) = Inr (0, 0, 0))"
proof -
  have h: "(23::nat) < 32" by simp
  from level7_is_black[OF h] obtain img where
    "build palette_colors shadow_levels = Inr img" "getpixel img (23, 7) = Inr (0, 0, 0)"
    by blast
  with h show ?thesis by blast
qed

text \<open>
  C5. The shadow row of palette index 8 is \<open>[8, 8, 24, 24, 2, 21, 1, 0]\<close>, and column 8
  of the texture built from the reference tables reads, from row 0 to row 7,
  (0xff,0x00,0x4d), (0xff,0x00,0x4d), (0xc3,0x00,0x4c), (0xc3,0x00,0x4c),
  (0x7e,0x25,0x53), (0x49,0x2d,0x38), (0x1d,0x2b,0x53), (0x00,0x00,0x00).
\<close>

theorem column_8_scenario:
  "shadow_levels 8 = Some [8, 8, 24, 24, 2, 21, 1, 0]
   \<and> (\<exists>img. build palette_colors shadow_levels = Inr img
        \<and> getpixel img (8, 0) = Inr (0xff, 0x00, 0x4d)
        \<and> getpixel img (8, 1) = Inr (0xff, 0x00, 0x4d)
        \<and> getpixel img (8, 2) = Inr (0xc3, 0x00, 0x4c)
        \<and> getpixel img (8, 3) = Inr (0xc3, 0x00, 0x4c)
        \<and> getpixel img (8, 4) = Inr (0x7e, 0x25, 0x53)
        \<and> getpixel img (8, 5) = Inr (0x49, 0x2d, 0x38)
        \<and> getpixel img (8, 6) = Inr (0x1d, 0x2b, 0x53)
        \<and> getpixel img (8, 7) = Inr (0x00, 0x00, 0x00))"
proof -
  from build_ok[OF palette_colors_ok shadow_levels_ok] obtain img where
    b: "build palette_colors shadow_levels = Inr img"
    and px: "\<And>p s row. p < 32 \<Longrightarrow> s < 8 \<Longrightarrow> shadow_levels p = Some row \<Longrightarrow>
           getpixel img (p, s) = Inr (palette_colors ! nat (row ! s))" by blast
  have c: "getpixel img (8, s) = Inr (palette_colors ! nat ([8, 8, 24, 24, 2, 21, 1, 0] ! s))"
    if "s < 8" for s
    using that by (intro px shadow_levels_8) simp_all
  have "getpixel img (8, 0) = Inr (0xff, 0x00, 0x4d)"
    using c[of 0] by (simp add: palette_colors_def del: getpixel.simps)
  moreover have "getpixel img (8, 1) = Inr (0xff, 0x00, 0x4d)"
    using c[of 1] by (simp add: palette_colors_def del: getpixel.simps)
  moreover have "getpixel img (8, 2) = Inr (0xc3, 0x00, 0x4c)"
    using c[of 2] by (simp add: palette_colors_def del: getpixel.simps)
  moreover have "getpixel img (8, 3) = Inr (0xc3, 0x00, 0x4c)"
    using c[of 3] by (simp add: palette_colors_def del: getpixel.simps)
  moreover have "getpixel img (8, 4) = Inr (0x7e, 0x25, 0x53)"
    using c[of 4] by (simp add: palette_colors_def del: getpixel.simps)
  moreover have "getpixel img (8, 5) = Inr (0x49, 0x2d, 0x38)"
    using c[of 5] by (simp add: palette_colors_def del: getpixel.simps)
  moreover have "getpixel img (8, 6) = Inr (0x1d, 0x2b, 0x53)"
    using c[of 6] by (simp add: palette_colors_def del: getpixel.simps)
  moreover have "getpixel img (8, 7) = Inr (0x00, 0x00, 0x00)"
    using c[of 7] by (simp add: palette_colors_def del: getpixel.simps)
  ultimately show ?thesis using b shadow_levels_8 by blast
qed

text \<open>
  C6. The script is all or nothing with respect to the files. If the build raises, the
  script ends with that exception in the world it started in: \<open>save\<close> is never reached.
  Whenever the script ends with an exception, the world is unchanged, so nothing was
  written. Whenever it ends normally, the build returned an image, all of its 32x8
  pixels were looked up and stored, and that image was written to the output path, the
  only file changed.
\<close>

theorem script_all_or_nothing:
  "(\<forall>e. build pal tbl = Inl e \<longrightarrow> script pal tbl w = (Inl e, w))
   \<and> (\<forall>e w'. script pal tbl w = (Inl e, w') \<longrightarrow> w' = w)
   \<and> (\<forall>w'. script pal tbl w = (Inr (), w') \<longrightarrow>
         (\<exists>img. build pal tbl = Inr img \<and> files w' = (files w)(output_path \<mapsto> img)
            \<and> im_width img = 32 \<and> im_height img = 8 \<and> length (im_data img) = 32 * 8
            \<and> (\<forall>p<32. \<forall>s<8. \<exists>v. lookup_rgb pal tbl (p, s) = Inr v
                   \<and> getpixel img (p, s) = Inr (clip_rgb v))))"
proof -
  have a: "\<forall>e. build pal tbl = Inl e \<longrightarrow> script pal tbl w = (Inl e, w)"
    using script_build_fails[of pal tbl _ w] by blast
  have b: "\<forall>e w'. script pal tbl w = (Inl e, w') \<longrightarrow> w' = w"
    using script_Inl[of pal tbl w] by blast
  have "\<exists>img. build pal tbl = Inr img \<and> files w' = (files w)(output_path \<mapsto> img)
            \<and> im_width img = 32 \<and> im_height img = 8 \<and> length (im_data img) = 32 * 8
            \<and> (\<forall>p<32. \<forall>s<8. \<exists>v. lookup_rgb pal tbl (p, s) = Inr v
                   \<and> getpixel img (p, s) = Inr (clip_rgb v))"
    if run: "script pal tbl w = (Inr (), w')" for w'
  proof -
    from run obtain img where bd: "build pal tbl = Inr img"
      and f: "files w' = (files w)(output_path \<mapsto> img)" by (rule script_Inr)
    have len: "length (im_data img) = 32 * 8" using build_Inr(4)[OF bd] by simp
    have px: "\<forall>p<32. \<forall>s<8. \<exists>v. lookup_rgb pal tbl (p, s) = Inr v
                   \<and> getpixel img (p, s) = Inr (clip_rgb v)"
      using build_Inr(5)[OF bd] by blast
    from bd f build_Inr(2,3)[OF bd] len px show ?thesis
      by (intro exI[of _ img] conjI)
  qed
  hence c: "\<forall>w'. script pal tbl w = (Inr (), w') \<longrightarrow>
         (\<exists>img. build pal tbl = Inr img \<and> files w' = (files w)(output_path \<mapsto> img)
            \<and> im_width img = 32 \<and> im_height img = 8 \<and> length (im_data img) = 32 * 8
            \<and> (\<forall>p<32. \<forall>s<8. \<exists>v. lookup_rgb pal tbl (p, s) = Inr v
                   \<and> getpixel img (p, s) = Inr (clip_rgb v)))" by blast
  from a b c show ?thesis by (intro conjI)
qed

theorem script_all_or_nothing_witness:
  "build palette_colors (shadow_levels(31 \<mapsto> [31, 31, 8, 8, 24, 2, 1, 32])) = Inl IndexError
   \<and> script palette_colors (shadow_levels(31 \<mapsto> [31, 31, 8, 8, 24, 2, 1, 32])) empty_world
       = (Inl IndexError, empty_world)
   \<and> files empty_world output_path = None
   \<and> (\<exists>w' img. script palette_colors shadow_levels empty_world = (Inr (), w')
          \<and> build palette_colors shadow_levels = Inr img
          \<and> files w' output_path = Some img \<and> length (im_data img) = 256)"
proof -
  let ?bad = "shadow_levels(31 \<mapsto> [31, 31, 8, 8, 24, 2, 1, 32])"
  have len: "length palette_colors = 32"
    using palette_colors_ok[unfolded palette_ok_def] by (rule conjunct1)
  have keys: "{0..<32} \<subseteq> dom ?bad" using dom_shadow_levels by auto
  have row: "?bad 31 = Some [31, 31, 8, 8, 24, 2, 1, 32]" by simp
  have bad: "[31, 31, 8, 8, 24, 2, 1, 32] ! 7 < - 32 \<or> (32::int) \<le> [31, 31, 8, 8, 24, 2, 1, 32] ! 7"
    by simp
  have "(31::nat) < 32" "(7::nat) < 8" "(7::nat) < length [31, 31, 8, 8, 24, 2, 1, 32::int]"
    by simp_all
  from build_IndexError[OF len keys this(1,2) row this(3) bad]
  have fail: "build palette_colors ?bad = Inl IndexError" .
  note t1 = script_all_or_nothing[of palette_colors ?bad empty_world]
  from t1 have "\<forall>e. build palette_colors ?bad = Inl e \<longrightarrow>
                  script palette_colors ?bad empty_world = (Inl e, empty_world)"
    by (rule conjunct1)
  from this[rule_format, OF fail]
  have s1: "script palette_colors ?bad empty_world = (Inl IndexError, empty_world)" .
  have none: "files empty_world output_path = None" by (simp add: empty_world_def)
  from build_ok[OF palette_colors_ok shadow_levels_ok] obtain img where
    b: "build palette_colors shadow_levels = Inr img"
    and px: "\<And>p s row. p < 32 \<Longrightarrow> s < 8 \<Longrightarrow> shadow_levels p = Some row \<Longrightarrow>
           getpixel img (p, s) = Inr (palette_colors ! nat (row ! s))" by blast
  have wr: "writable empty_world output_path" by (simp add: empty_world_def)
  from script_ok[OF b wr] obtain w' where
    s2: "script palette_colors shadow_levels empty_world = (Inr (), w')" by blast
  note t2 = script_all_or_nothing[of palette_colors shadow_levels empty_world]
  from t2 have "\<forall>w'. script palette_colors shadow_levels empty_world = (Inr (), w') \<longrightarrow>
         (\<exists>img. build palette_colors shadow_levels = Inr img
            \<and> files w' = (files empty_world)(output_path \<mapsto> img)
            \<and> im_width img = 32 \<and> im_height img = 8 \<and> length (im_data img) = 32 * 8
            \<and> (\<forall>p<32. \<forall>s<8. \<exists>v. lookup_rgb palette_colors shadow_levels (p, s) = Inr v
                   \<and> getpixel img (p, s) = Inr (clip_rgb v)))"
    by (rule conjunct2[OF conjunct2])
  from this[rule_format, OF s2] obtain g where g: "build palette_colors shadow_levels = Inr g"
    and f: "files w' = (files empty_world)(output_path \<mapsto> g)"
    and l: "length (im_data g) = 32 * 8" by blast
  from f have f': "files w' output_path = Some g" by simp
  from l have l': "length (im_data g) = 256" by simp
  from s2 g f' l' have "\<exists>w' img. script palette_colors shadow_levels empty_world = (Inr (), w')
          \<and> build palette_colors shadow_levels = Inr img
          \<and> files w' output_path = Some img \<and> length (im_data img) = 256"
    by (intro exI[of _ w'] exI[of _ g] conjI)
  with fail s1 none show ?thesis by (intro conjI)
qed

text \<open>
  C7. The compiled-in tables satisfy the invariants of the data model: the palette has
  exactly 32 entries, every channel is in 0..255 and entry 0 is pure black; the shadow
  table has exactly the 32 keys 0..31, every row has exactly 8 entries and every entry is
  a palette index in [0,32).
\<close>

theorem reference_tables_invariants:
  "length palette_colors = 32
   \<and> (\<forall>c \<in> set palette_colors. case c of (r, g, b) \<Rightarrow>
          0 \<le> r \<and> r < 256 \<and> 0 \<le> g \<and> g < 256 \<and> 0 \<le> b \<and> b < 256)
   \<and> palette_colors ! 0 = (0, 0, 0)
   \<and> dom shadow_levels = {0..<32}
   \<and> (\<forall>p \<in> {0..<32}. \<exists>row. shadow_levels p = Some row \<and> length row = 8
          \<and> (\<forall>v \<in> set row. 0 \<le> v \<and> v < 32))"
proof -
  have rows: "\<forall>p \<in> {0..<32}. \<exists>row. shadow_levels p = Some row \<and> length row = 8
                \<and> (\<forall>v \<in> set row. 0 \<le> v \<and> v < 32)"
  proof
    fix p :: nat assume p: "p \<in> {0..<32}"
    from shadow_levels_ok[unfolded shadow_table_ok_def] p
    have c: "case shadow_levels p of None \<Rightarrow> False
             | Some row \<Rightarrow> length row = 8 \<and> (\<forall>v \<in> set row. 0 \<le> v \<and> v < 32)"
      by (rule bspec)
    show "\<exists>row. shadow_levels p = Some row \<and> length row = 8
                \<and> (\<forall>v \<in> set row. 0 \<le> v \<and> v < 32)"
    proof (cases "shadow_levels p")
      case None
      with c show ?thesis by simp
    next
      case (Some row)
      with c have "length row = 8 \<and> (\<forall>v \<in> set row. 0 \<le> v \<and> v < 32)" by simp
      with Some show ?thesis by blast
    qed
  qed
  have blk: "palette_colors ! 0 = (0, 0, 0)" by (simp add: palette_colors_def)
  note pal = palette_colors_ok[unfolded palette_ok_def]
  from pal have l: "length palette_colors = 32" by (rule conjunct1)
  from pal have ch: "\<forall>c \<in> set palette_colors. case c of (r, g, b) \<Rightarrow>
          0 \<le> r \<and> r < 256 \<and> 0 \<le> g \<and> g < 256 \<and> 0 \<le> b \<and> b < 256" by (rule conjunct2)
  from l ch blk dom_shadow_levels rows show ?thesis by (intro conjI)
qed

theorem reference_tables_invariants_witness:
  "(0xff, 0x85, 0x6d) \<in> set palette_colors \<and> (31::nat) \<in> {0..<32}
   \<and> (\<exists>row. shadow_levels 31 = Some row \<and> length row = 8 \<and> 24 \<in> set row
          \<and> (0::int) \<le> 24 \<and> (24::int) < 32)"
proof -
  have a: "(0xff, 0x85, 0x6d) \<in> set palette_colors" by (simp add: palette_colors_def)
  have b: "(31::nat) \<in> {0..<32}" by simp
  have c: "shadow_levels 31 = Some [31, 31, 8, 8, 24, 2, 1, 0]"
    by (simp add: shadow_levels_def shadow_rows_def)
  from reference_tables_invariants have
    "\<forall>p \<in> {0..<32}. \<exists>row. shadow_levels p = Some row \<and> length row = 8
          \<and> (\<forall>v \<in> set row. 0 \<le> v \<and> v < 32)" 
    by (rule conjunct2[OF conjunct2[OF conjunct2[OF conjunct2]]])
  from bspec[OF this b] obtain row where r: "shadow_levels 31 = Some row"
    and l: "length row = 8" by blast
  from r c have "row = [31, 31, 8, 8, 24, 2, 1, 0]" by simp
  hence m: "24 \<in> set row" by simp
  have "(0::int) \<le> 24" "(24::int) < 32" by simp_all
  with a b r l m show ?thesis by blast
qed

text \<open>
  C8. Where the output path can be written, the script ends normally and changes the
  files at exactly one path, the fixed relative path
  \<open>assets/palette_shadow_lookup.png\<close>; the image saved there has mode RGB (three
  channels, no alpha), is 32 pixels wide and 8 pixels tall, and its pixel in column
  \<open>p\<close>, row \<open>s\<close> is the colour of shadow level \<open>s\<close> of palette index \<open>p\<close>.
\<close>

theorem output_file_format:
  assumes "writable w output_path"
  shows "output_path = ''assets/palette_shadow_lookup.png''
       \<and> (\<exists>img w'. main w = (Inr (), w')
              \<and> files w' = (files w)(''assets/palette_shadow_lookup.png'' \<mapsto> img)
              \<and> im_mode img = ''RGB'' \<and> im_width img = 32 \<and> im_height img = 8
              \<and> length (im_data img) = 32 * 8
              \<and> (\<forall>p<32. \<forall>s<8. \<exists>row. shadow_levels p = Some row
                     \<and> getpixel img (p, s) = Inr (palette_colors ! nat (row ! s))))"
proof -
  from build_ok[OF palette_colors_ok shadow_levels_ok] obtain img where
    b: "build palette_colors shadow_levels = Inr img"
    and px: "\<And>p s row. p < 32 \<Longrightarrow> s < 8 \<Longrightarrow> shadow_levels p = Some row \<Longrightarrow>
           getpixel img (p, s) = Inr (palette_colors ! nat (row ! s))" by blast
  from script_ok[OF b assms] obtain w' where
    run: "script palette_colors shadow_levels w = (Inr (), w')"
    and f: "files w' = (files w)(output_path \<mapsto> img)" by blast
  have m: "main w = (Inr (), w')" using run by (simp only: main_def)
  have f': "files w' = (files w)(''assets/palette_shadow_lookup.png'' \<mapsto> img)"
    using f by (simp only: output_path_def)
  have len: "length (im_data img) = 32 * 8" using build_Inr(4)[OF b] by simp
  have "\<exists>row. shadow_levels p = Some row
           \<and> getpixel img (p, s) = Inr (palette_colors ! nat (row ! s))"
    if p: "p < 32" and s: "s < 8" for p s
  proof -
    from shadow_table_okD[OF shadow_levels_ok p] obtain row where
      row: "shadow_levels p = Some row" by blast
    from px[OF p s row] row show ?thesis by blast
  qed
  hence all: "\<forall>p<32. \<forall>s<8. \<exists>row. shadow_levels p = Some row
           \<and> getpixel img (p, s) = Inr (palette_colors ! nat (row ! s))" by blast
  from m f' build_Inr(1,2,3)[OF b] len all
  have "\<exists>img w'. main w = (Inr (), w')
              \<and> files w' = (files w)(''assets/palette_shadow_lookup.png'' \<mapsto> img)
              \<and> im_mode img = ''RGB'' \<and> im_width img = 32 \<and> im_height img = 8
              \<and> length (im_data img) = 32 * 8
              \<and> (\<forall>p<32. \<forall>s<8. \<exists>row. shadow_levels p = Some row
                     \<and> getpixel img (p, s) = Inr (palette_colors ! nat (row ! s)))"
    by (intro exI[of _ img] exI[of _ w'] conjI)
  with output_path_def show ?thesis by (intro conjI)
qed

theorem output_file_format_witness:
  "writable empty_world output_path
   \<and> (\<exists>img w'. main empty_world = (Inr (), w')
          \<and> files w' ''assets/palette_shadow_lookup.png'' = Some img
          \<and> dom (files w') = {''assets/palette_shadow_lookup.png''}
          \<and> im_mode img = ''RGB'' \<and> im_width img = 32 \<and> im_height img = 8
          \<and> getpixel img (31, 0) = Inr (0xff, 0x85, 0x6d))"
proof -
  have wr: "writable empty_world output_path" by (simp add: empty_world_def)
  from output_file_format[OF wr] obtain img w' where
    m: "main empty_world = (Inr (), w')"
    and f: "files w' = (files empty_world)(''assets/palette_shadow_lookup.png'' \<mapsto> img)"
    and md: "im_mode img = ''RGB''" and wd: "im_width img = 32" and ht: "im_height img = 8"
    and px: "\<forall>p<32. \<forall>s<8. \<exists>row. shadow_levels p = Some row
                     \<and> getpixel img (p, s) = Inr (palette_colors ! nat (row ! s))"
    by blast
  have f1: "files w' ''assets/palette_shadow_lookup.png'' = Some img" using f by simp
  have f2: "dom (files w') = {''assets/palette_shadow_lookup.png''}"
    using f by (simp add: empty_world_def)
  have r31: "shadow_levels 31 = Some [31, 31, 8, 8, 24, 2, 1, 0]"
    by (simp add: shadow_levels_def shadow_rows_def)
  have "(31::nat) < 32" "(0::nat) < 8" by simp_all
  from px[rule_format, OF this] obtain row where row: "shadow_levels 31 = Some row"
    and g: "getpixel img (31, 0) = Inr (palette_colors ! nat (row ! 0))" by blast
  from row r31 have "row = [31, 31, 8, 8, 24, 2, 1, 0]" by simp
  hence "row ! 0 = 31" by simp
  with g have "getpixel img (31, 0) = Inr (palette_colors ! nat 31)" by (simp del: getpixel.simps)
  hence g': "getpixel img (31, 0) = Inr (0xff, 0x85, 0x6d)"
    by (simp add: palette_colors_def del: getpixel.simps)
  from m f1 f2 md wd ht g'
  have "\<exists>img w'. main empty_world = (Inr (), w')
          \<and> files w' ''assets/palette_shadow_lookup.png'' = Some img
          \<and> dom (files w') = {''assets/palette_shadow_lookup.png''}
          \<and> im_mode img = ''RGB'' \<and> im_width img = 32 \<and> im_height img = 8
          \<and> getpixel img (31, 0) = Inr (0xff, 0x85, 0x6d)"
    by (intro exI[of _ img] exI[of _ w'] conjI)
  with wr show ?thesis by (intro conjI)
qed

text \<open>
  C9. The build is a function of the palette and the shadow table alone, and the result
  does not depend on the order of the fill loop: run over the 256 cells in any order
  (any list of cells that covers the 32x8 grid), the loop returns an image exactly when
  the nested loop of the script does, and it is the same image, pixel for pixel. Two
  runs of the script that end normally, in whatever worlds, leave the same image in the
  output file.
\<close>

theorem build_deterministic_any_order:
  assumes "set cells = {0..<32} \<times> {0..<8}"
  shows "(fill_in_order pal tbl cells (Image_new ''RGB'' (width, height)) = Inr img
            \<longleftrightarrow> build pal tbl = Inr img)
       \<and> (\<forall>w1 w2 w1' w2'. script pal tbl w1 = (Inr (), w1') \<longrightarrow>
              script pal tbl w2 = (Inr (), w2') \<longrightarrow>
              (\<exists>g. build pal tbl = Inr g \<and> files w1' output_path = Some g
                    \<and> files w2' output_path = Some g))"
proof -
  let ?new = "Image_new ''RGB'' (width, height)"
  have a: "build pal tbl = Inr img" if run: "fill_in_order pal tbl cells ?new = Inr img"
  proof -
    from fill_in_order_Inr[OF run]
    have all: "\<forall>c \<in> set cells. fst c < im_width ?new \<and> snd c < im_height ?new
                 \<and> (\<exists>v. lookup_rgb pal tbl c = Inr v)"
      by (rule conjunct2[OF conjunct2[OF conjunct2[OF conjunct2]]])
    have "\<exists>v. lookup_rgb pal tbl (p, s) = Inr v" if "p < 32" "s < 8" for p s
    proof -
      have "(p, s) \<in> set cells" using that assms by simp
      from bspec[OF all this] show ?thesis by (rule conjunct2[OF conjunct2])
    qed
    from build_succeeds[OF this] obtain img' where b: "build pal tbl = Inr img'" by blast
    from fill_any_order[OF b assms] run have "img' = img" by simp
    with b show ?thesis by simp
  qed
  have b: "fill_in_order pal tbl cells ?new = Inr img" if "build pal tbl = Inr img"
    using that assms by (rule fill_any_order)
  from a b have eq: "fill_in_order pal tbl cells ?new = Inr img \<longleftrightarrow> build pal tbl = Inr img"
    by (rule iffI)
  have two: "\<exists>g. build pal tbl = Inr g \<and> files w1' output_path = Some g
                    \<and> files w2' output_path = Some g"
    if r1: "script pal tbl w1 = (Inr (), w1')" and r2: "script pal tbl w2 = (Inr (), w2')"
    for w1 w2 w1' w2'
  proof -
    from r1 obtain g1 where b1: "build pal tbl = Inr g1"
      and f1: "files w1' = (files w1)(output_path \<mapsto> g1)" by (rule script_Inr)
    from r2 obtain g2 where b2: "build pal tbl = Inr g2"
      and f2: "files w2' = (files w2)(output_path \<mapsto> g2)" by (rule script_Inr)
    from b1 b2 have "g2 = g1" by simp
    with f1 f2 have "files w1' output_path = Some g1" "files w2' output_path = Some g1"
      by simp_all
    with b1 show ?thesis by blast
  qed
  hence "\<forall>w1 w2 w1' w2'. script pal tbl w1 = (Inr (), w1') \<longrightarrow>
              script pal tbl w2 = (Inr (), w2') \<longrightarrow>
              (\<exists>g. build pal tbl = Inr g \<and> files w1' output_path = Some g
                    \<and> files w2' output_path = Some g)" by blast
  with eq show ?thesis by (rule conjI)
qed

theorem build_deterministic_any_order_witness:
  "set (rev raster) = {0..<32} \<times> {0..<8}
   \<and> (\<exists>img. build palette_colors shadow_levels = Inr img
        \<and> fill_in_order palette_colors shadow_levels (rev raster)
              (Image_new ''RGB'' (width, height)) = Inr img
        \<and> (\<exists>w1' w2'. script palette_colors shadow_levels empty_world = (Inr (), w1')
              \<and> script palette_colors shadow_levels (empty_world\<lparr>stdout := [''x'']\<rparr>) = (Inr (), w2')
              \<and> files w1' output_path = Some img \<and> files w2' output_path = Some img))"
proof -
  have cells: "set (rev raster) = {0..<32} \<times> {0..<8}" by (simp only: set_rev set_raster)
  from build_ok[OF palette_colors_ok shadow_levels_ok] obtain img where
    b: "build palette_colors shadow_levels = Inr img"
    and px: "\<And>p s row. p < 32 \<Longrightarrow> s < 8 \<Longrightarrow> shadow_levels p = Some row \<Longrightarrow>
           getpixel img (p, s) = Inr (palette_colors ! nat (row ! s))" by blast
  note t = build_deterministic_any_order[OF cells, of palette_colors shadow_levels img]
  from t have "fill_in_order palette_colors shadow_levels (rev raster)
              (Image_new ''RGB'' (width, height)) = Inr img
            \<longleftrightarrow> build palette_colors shadow_levels = Inr img" by (rule conjunct1)
  with b have run: "fill_in_order palette_colors shadow_levels (rev raster)
              (Image_new ''RGB'' (width, height)) = Inr img" by simp
  have wr1: "writable empty_world output_path" by (simp add: empty_world_def)
  have wr2: "writable (empty_world\<lparr>stdout := [''x'']\<rparr>) output_path"
    by (simp add: empty_world_def)
  from script_ok[OF b wr1] obtain w1' where
    s1: "script palette_colors shadow_levels empty_world = (Inr (), w1')" by blast
  from script_ok[OF b wr2] obtain w2' where
    s2: "script palette_colors shadow_levels (empty_world\<lparr>stdout := [''x'']\<rparr>) = (Inr (), w2')"
    by blast
  from t have "\<forall>w1 w2 w1' w2'. script palette_colors shadow_levels w1 = (Inr (), w1') \<longrightarrow>
              script palette_colors shadow_levels w2 = (Inr (), w2') \<longrightarrow>
              (\<exists>g. build palette_colors shadow_levels = Inr g \<and> files w1' output_path = Some g
                    \<and> files w2' output_path = Some g)" by (rule conjunct2)
  from this[rule_format, OF s1 s2] obtain g where
    g: "build palette_colors shadow_levels = Inr g"
    and f1: "files w1' output_path = Some g" and f2: "files w2' output_path = Some g" by blast
  from g b have "g = img" by simp
  with f1 f2 have f: "files w1' output_path = Some img" "files w2' output_path = Some img"
    by simp_all
  from s1 s2 f have "\<exists>w1' w2'. script palette_colors shadow_levels empty_world = (Inr (), w1')
              \<and> script palette_colors shadow_levels (empty_world\<lparr>stdout := [''x'']\<rparr>) = (Inr (), w2')
              \<and> files w1' output_path = Some img \<and> files w2' output_path = Some img"
    by (intro exI[of _ w1'] exI[of _ w2'] conjI)
  with b run have "\<exists>img. build palette_colors shadow_levels = Inr img
        \<and> fill_in_order palette_colors shadow_levels (rev raster)
              (Image_new ''RGB'' (width, height)) = Inr img
        \<and> (\<exists>w1' w2'. script palette_colors shadow_levels empty_world = (Inr (), w1')
              \<and> script palette_colors shadow_levels (empty_world\<lparr>stdout := [''x'']\<rparr>) = (Inr (), w2')
              \<and> files w1' output_path = Some img \<and> files w2' output_path = Some img)"
    by (intro exI[of _ img] conjI)
  with cells show ?thesis by (rule conjI)
qed

text \<open>
  C10. Every pixel of a texture the build returns is a colour of the palette, for every
  palette of 32 colours with 8-bit channels and every shadow table: the image has 256
  pixels, each pixel read back is an entry of the palette, and the set of pixel values
  is a subset of the palette's colours.
\<close>

theorem pixels_from_palette:
  assumes "palette_ok pal" and "build pal tbl = Inr img"
  shows "length (im_data img) = 256 \<and> set (im_data img) \<subseteq> set pal
       \<and> (\<forall>p<32. \<forall>s<8. \<exists>c. getpixel img (p, s) = Inr c \<and> c \<in> set pal)"
proof -
  note len = build_Inr(4)[OF assms(2)]
  note sub = build_pixels_in_palette[OF assms]
  have "\<exists>c. getpixel img (p, s) = Inr c \<and> c \<in> set pal" if p: "p < 32" and s: "s < 8" for p s
  proof -
    have i: "s * 32 + p < 256" using p s by simp
    hence "im_data img ! (s * 32 + p) \<in> set (im_data img)" using len by simp
    with sub have "im_data img ! (s * 32 + p) \<in> set pal" by blast
    moreover have "getpixel img (p, s) = Inr (im_data img ! (s * 32 + p))"
      using build_Inr(2,3)[OF assms(2)] p s by simp
    ultimately show ?thesis by blast
  qed
  hence "\<forall>p<32. \<forall>s<8. \<exists>c. getpixel img (p, s) = Inr c \<and> c \<in> set pal" by blast
  with len sub show ?thesis by (intro conjI)
qed

theorem pixels_from_palette_witness:
  "palette_ok palette_colors
   \<and> (\<exists>img. build palette_colors shadow_levels = Inr img
          \<and> length (im_data img) = 256 \<and> set (im_data img) \<subseteq> set palette_colors
          \<and> (31::nat) < 32 \<and> (7::nat) < 8
          \<and> (\<exists>c. getpixel img (31, 7) = Inr c \<and> c \<in> set palette_colors))"
proof -
  from build_ok[OF palette_colors_ok shadow_levels_ok] obtain img where
    b: "build palette_colors shadow_levels = Inr img"
    and px: "\<And>p s row. p < 32 \<Longrightarrow> s < 8 \<Longrightarrow> shadow_levels p = Some row \<Longrightarrow>
           getpixel img (p, s) = Inr (palette_colors ! nat (row ! s))" by blast
  note t = pixels_from_palette[OF palette_colors_ok b]
  from t have l: "length (im_data img) = 256" by (rule conjunct1)
  from t have s: "set (im_data img) \<subseteq> set palette_colors" by (rule conjunct1[OF conjunct2])
  from t have a: "\<forall>p<32. \<forall>s<8. \<exists>c. getpixel img (p, s) = Inr c \<and> c \<in> set palette_colors"
    by (rule conjunct2[OF conjunct2])
  have h: "(31::nat) < 32" "(7::nat) < 8" by simp_all
  from a[rule_format, OF h] have "\<exists>c. getpixel img (31, 7) = Inr c \<and> c \<in> set palette_colors" .
  with b l s h have "\<exists>img. build palette_colors shadow_levels = Inr img
          \<and> length (im_data img) = 256 \<and> set (im_data img) \<subseteq> set palette_colors
          \<and> (31::nat) < 32 \<and> (7::nat) < 8
          \<and> (\<exists>c. getpixel img (31, 7) = Inr c \<and> c \<in> set palette_colors)"
    by (intro exI[of _ img] conjI)
  with palette_colors_ok show ?thesis by (intro conjI)
qed

end
